theory Spec2Isabelle
  imports Complex_Main
begin

section \<open>JavaScript numbers\<close>

text \<open>
  A JavaScript \<^verbatim>\<open>number\<close> is an IEEE-754 double. The model keeps its special values
  apart (\<open>PInf\<close>, \<open>NInf\<close>, \<open>NaN\<close>) and follows their arithmetic as ECMAScript gives it.
  Two idealisations are made and hold for everything below. A finite value is a real, and
  the result of \<^verbatim>\<open>+\<close>, \<^verbatim>\<open>-\<close>, \<^verbatim>\<open>*\<close> and \<^verbatim>\<open>/\<close> on finite values is the exact
  result unless it overflows: under round-to-nearest an exact result of magnitude
  \<open>2^1024 - 2^970\<close> or more becomes the infinity of its sign (\<open>overflow\<close>); rounding
  below that bound and underflow are not modelled. The two zeros of IEEE-754 are one
  (\<open>Fin 0\<close> stands for \<^verbatim>\<open>+0\<close>).
\<close>

datatype jsnum = Fin real | PInf | NInf | NaN

definition overflow_bound :: real where
  "overflow_bound = 2 ^ 1024 - 2 ^ 970"

definition overflow :: "real \<Rightarrow> jsnum" where
  "overflow x =
     (if overflow_bound \<le> x then PInf
      else if x \<le> - overflow_bound then NInf
      else Fin x)"

fun isFinite :: "jsnum \<Rightarrow> bool" where
  "isFinite (Fin x) = True"
| "isFinite _ = False"

fun js_neg :: "jsnum \<Rightarrow> jsnum" where
  "js_neg (Fin x) = Fin (- x)"
| "js_neg PInf = NInf"
| "js_neg NInf = PInf"
| "js_neg NaN = NaN"

fun js_add :: "jsnum \<Rightarrow> jsnum \<Rightarrow> jsnum" where
  "js_add NaN b = NaN"
| "js_add a NaN = NaN"
| "js_add (Fin x) (Fin y) = overflow (x + y)"
| "js_add PInf NInf = NaN"
| "js_add NInf PInf = NaN"
| "js_add PInf b = PInf"
| "js_add a PInf = PInf"
| "js_add NInf b = NInf"
| "js_add a NInf = NInf"

definition js_sub :: "jsnum \<Rightarrow> jsnum \<Rightarrow> jsnum" where
  "js_sub a b = js_add a (js_neg b)"

fun js_mul :: "jsnum \<Rightarrow> jsnum \<Rightarrow> jsnum" where
  "js_mul NaN b = NaN"
| "js_mul a NaN = NaN"
| "js_mul (Fin x) (Fin y) = overflow (x * y)"
| "js_mul (Fin x) PInf = (if x = 0 then NaN else if 0 < x then PInf else NInf)"
| "js_mul (Fin x) NInf = (if x = 0 then NaN else if 0 < x then NInf else PInf)"
| "js_mul PInf (Fin y) = (if y = 0 then NaN else if 0 < y then PInf else NInf)"
| "js_mul NInf (Fin y) = (if y = 0 then NaN else if 0 < y then NInf else PInf)"
| "js_mul PInf PInf = PInf"
| "js_mul PInf NInf = NInf"
| "js_mul NInf PInf = NInf"
| "js_mul NInf NInf = PInf"

fun js_div :: "jsnum \<Rightarrow> jsnum \<Rightarrow> jsnum" where
  "js_div NaN b = NaN"
| "js_div a NaN = NaN"
| "js_div (Fin x) (Fin y) =
     (if y = 0 then (if x = 0 then NaN else if 0 < x then PInf else NInf)
      else overflow (x / y))"
| "js_div (Fin x) PInf = Fin 0"
| "js_div (Fin x) NInf = Fin 0"
| "js_div PInf (Fin y) = (if 0 \<le> y then PInf else NInf)"
| "js_div NInf (Fin y) = (if 0 \<le> y then NInf else PInf)"
| "js_div PInf PInf = NaN"
| "js_div PInf NInf = NaN"
| "js_div NInf PInf = NaN"
| "js_div NInf NInf = NaN"

text \<open>The comparison \<^verbatim>\<open><\<close>: false as soon as an operand is \<^verbatim>\<open>NaN\<close>.\<close>

fun js_lt :: "jsnum \<Rightarrow> jsnum \<Rightarrow> bool" where
  "js_lt NaN b = False"
| "js_lt a NaN = False"
| "js_lt (Fin x) (Fin y) = (x < y)"
| "js_lt a NInf = False"
| "js_lt PInf b = False"
| "js_lt NInf b = True"
| "js_lt a PInf = True"

definition js_gt :: "jsnum \<Rightarrow> jsnum \<Rightarrow> bool" where
  "js_gt a b = js_lt b a"

fun Math_abs :: "jsnum \<Rightarrow> jsnum" where
  "Math_abs (Fin x) = Fin \<bar>x\<bar>"
| "Math_abs PInf = PInf"
| "Math_abs NInf = PInf"
| "Math_abs NaN = NaN"

text \<open>\<^verbatim>\<open>Math.min\<close> and \<^verbatim>\<open>Math.max\<close> return \<^verbatim>\<open>NaN\<close> when an argument is \<^verbatim>\<open>NaN\<close>.\<close>

fun Math_min :: "jsnum \<Rightarrow> jsnum \<Rightarrow> jsnum" where
  "Math_min NaN b = NaN"
| "Math_min a NaN = NaN"
| "Math_min a b = (if js_lt b a then b else a)"

fun Math_max :: "jsnum \<Rightarrow> jsnum \<Rightarrow> jsnum" where
  "Math_max NaN b = NaN"
| "Math_max a NaN = NaN"
| "Math_max a b = (if js_lt a b then b else a)"

fun Math_sin :: "jsnum \<Rightarrow> jsnum" where
  "Math_sin (Fin x) = Fin (sin x)"
| "Math_sin _ = NaN"

fun Math_cos :: "jsnum \<Rightarrow> jsnum" where
  "Math_cos (Fin x) = Fin (cos x)"
| "Math_cos _ = NaN"

fun Math_sqrt :: "jsnum \<Rightarrow> jsnum" where
  "Math_sqrt (Fin x) = (if x < 0 then NaN else Fin (sqrt x))"
| "Math_sqrt PInf = PInf"
| "Math_sqrt NInf = NaN"
| "Math_sqrt NaN = NaN"

text \<open>\<^verbatim>\<open>Math.atan2(y, x)\<close>, with the values ECMAScript fixes at zero and at infinity.\<close>

fun Math_atan2 :: "jsnum \<Rightarrow> jsnum \<Rightarrow> jsnum" where
  "Math_atan2 NaN x = NaN"
| "Math_atan2 y NaN = NaN"
| "Math_atan2 (Fin y) (Fin x) =
     (if 0 < x then Fin (arctan (y / x))
      else if x < 0 then (if 0 \<le> y then Fin (arctan (y / x) + pi) else Fin (arctan (y / x) - pi))
      else if 0 < y then Fin (pi / 2)
      else if y < 0 then Fin (- pi / 2)
      else Fin 0)"
| "Math_atan2 (Fin y) PInf = Fin 0"
| "Math_atan2 (Fin y) NInf = (if 0 \<le> y then Fin pi else Fin (- pi))"
| "Math_atan2 PInf (Fin x) = Fin (pi / 2)"
| "Math_atan2 NInf (Fin x) = Fin (- pi / 2)"
| "Math_atan2 PInf PInf = Fin (pi / 4)"
| "Math_atan2 PInf NInf = Fin (3 * pi / 4)"
| "Math_atan2 NInf PInf = Fin (- pi / 4)"
| "Math_atan2 NInf NInf = Fin (- 3 * pi / 4)"

section \<open>Trigonometric state types\<close>

record TrigState =
  theta :: jsnum
  amplitude :: jsnum
  phase :: jsnum
  timestamp :: jsnum

record TrigTriad =
  jolt :: jsnum
  observer :: jsnum
  vhitzee :: jsnum

section \<open>TrigonometricProcessor (\<^verbatim>\<open>src/core/trigonometric_fpt.ts\<close>)\<close>

record TrigonometricProcessor =
  epsilonBase :: jsnum
  damping :: jsnum

text \<open>The constructor's default arguments: \<^verbatim>\<open>epsilonBase = 0.0417, damping = 0.1\<close>.\<close>

definition default_processor :: TrigonometricProcessor where
  "default_processor = \<lparr> epsilonBase = Fin (417 / 10000), damping = Fin (1 / 10) \<rparr>"

definition computeTangent :: "jsnum \<Rightarrow> jsnum \<Rightarrow> jsnum" where
  "computeTangent totalPhase ampl =
     (let cos_val = js_mul ampl (Math_cos totalPhase);
          sin_val = js_mul ampl (Math_sin totalPhase)
      in if js_lt (Math_abs cos_val) (Fin (1 / 10 ^ 10))
         then (if js_gt sin_val (Fin 0) then PInf else NInf)
         else js_div sin_val cos_val)"

definition computeTriad :: "TrigState \<Rightarrow> TrigTriad" where
  "computeTriad st =
     (let totalPhase = js_add (theta st) (phase st)
      in \<lparr> jolt = js_mul (amplitude st) (Math_sin totalPhase),
           observer = js_mul (amplitude st) (Math_cos totalPhase),
           vhitzee = computeTangent totalPhase (amplitude st) \<rparr>)"

text \<open>
  The constant \<^verbatim>\<open>opposition_penalty\<close> of \<^verbatim>\<open>computeVitality\<close>, named so that it
  can be spoken about on its own.
\<close>

definition opposition_penalty :: "TrigTriad \<Rightarrow> jsnum" where
  "opposition_penalty tr = Math_min (js_div (Math_abs (vhitzee tr)) (Fin 10)) (Fin (3 / 10))"

definition computeVitality :: "TrigTriad \<Rightarrow> jsnum" where
  "computeVitality tr =
     (let jolt_norm = Math_min (Math_abs (jolt tr)) (Fin 1);
          observer_norm = Math_min (Math_abs (observer tr)) (Fin 1);
          opposition_penalty = opposition_penalty tr;
          vitality_raw =
            js_sub (js_add (js_mul (Fin (6 / 10)) observer_norm)
                           (js_mul (Fin (4 / 10)) jolt_norm))
                   opposition_penalty
      in Math_max (Fin (1 / 2)) (Math_min (Fin (15 / 10)) (js_add vitality_raw (Fin (1 / 2)))))"

record PhasePacket =
  packet_version :: string
  session_id :: string
  node_id :: string
  group_id :: "string option"
  state :: TrigState
  triad :: TrigTriad
  vitality :: jsnum
  epsilon_d :: jsnum
  snh_digest :: string
  created_at :: jsnum

text \<open>
  \<^verbatim>\<open>Date.now()\<close> is read from the environment: each call's result is an argument
  (\<open>now\<close>, milliseconds as a natural number).
\<close>

definition createPhasePacket ::
  "TrigonometricProcessor \<Rightarrow> nat \<Rightarrow> TrigState \<Rightarrow> string \<Rightarrow> string \<Rightarrow> string \<Rightarrow> string option
     \<Rightarrow> PhasePacket" where
  "createPhasePacket this now st nodeId sessionId snhDigest groupId =
     (let tr = computeTriad st;
          vit = computeVitality tr;
          eps = js_mul (epsilonBase this) vit
      in \<lparr> packet_version = ''1.0.0-trig'',
           session_id = sessionId,
           node_id = nodeId,
           group_id = groupId,
           state = st,
           triad = tr,
           vitality = vit,
           epsilon_d = eps,
           snh_digest = snhDigest,
           created_at = Fin (real now) \<rparr>)"

section \<open>Thrown errors\<close>

text \<open>\<^verbatim>\<open>throw new Error(message)\<close>, and the \<^verbatim>\<open>TypeError\<close> of the runtime.\<close>

datatype error = Error string | TypeError string

section \<open>SimplifiedTrigFPT.processor (the enhanced server, \<^verbatim>\<open>src/unnamed/part_000\<close>)\<close>

text \<open>
  The request's \<^verbatim>\<open>bands\<close> object: each band is a number or absent. \<^verbatim>\<open>x || 0\<close>
  replaces a falsy \<^verbatim>\<open>x\<close> (absent, zero or \<^verbatim>\<open>NaN\<close>) by zero.
\<close>

record Bands =
  b_alpha :: "jsnum option"
  b_theta :: "jsnum option"
  b_gamma :: "jsnum option"

fun or_zero :: "jsnum option \<Rightarrow> jsnum" where
  "or_zero None = Fin 0"
| "or_zero (Some NaN) = Fin 0"
| "or_zero (Some v) = v"

definition eegToPhaseState :: "nat \<Rightarrow> Bands \<Rightarrow> TrigState" where
  "eegToPhaseState now bands =
     (let alpha = or_zero (b_alpha bands);
          theta_band = or_zero (b_theta bands);
          gamma = or_zero (b_gamma bands);
          th = js_mul (js_add (js_add (js_mul alpha (Fin (5 / 10))) (js_mul gamma (Fin 1)))
                              (js_mul theta_band (Fin (15 / 10))))
                      (Fin pi);
          ampl = js_add (js_mul (Math_sqrt (js_add alpha gamma)) (Fin (8 / 10))) (Fin (5 / 10))
      in \<lparr> theta = th, amplitude = ampl, phase = Fin 0, timestamp = Fin (real now) \<rparr>)"

definition srv_computeTriad :: "TrigState \<Rightarrow> TrigTriad" where
  "srv_computeTriad st =
     (let totalPhase = js_add (theta st) (phase st);
          jolt = js_mul (amplitude st) (Math_sin totalPhase);
          observer = js_mul (amplitude st) (Math_cos totalPhase);
          cos_val = js_mul (amplitude st) (Math_cos totalPhase);
          vhitzee = (if js_lt (Math_abs cos_val) (Fin (1 / 10 ^ 10))
                     then (if js_gt jolt (Fin 0) then PInf else NInf)
                     else js_div jolt cos_val)
      in \<lparr> jolt = jolt, observer = observer, vhitzee = vhitzee \<rparr>)"

definition srv_opposition_penalty :: "TrigTriad \<Rightarrow> jsnum" where
  "srv_opposition_penalty tr =
     (if isFinite (vhitzee tr)
      then Math_min (js_div (Math_abs (vhitzee tr)) (Fin 10)) (Fin (3 / 10))
      else Fin (3 / 10))"

definition srv_computeVitality :: "TrigTriad \<Rightarrow> jsnum" where
  "srv_computeVitality tr =
     (let jolt_norm = Math_min (Math_abs (jolt tr)) (Fin 1);
          observer_norm = Math_min (Math_abs (observer tr)) (Fin 1);
          opposition_penalty = srv_opposition_penalty tr;
          vitality_raw =
            js_sub (js_add (js_mul (Fin (6 / 10)) observer_norm)
                           (js_mul (Fin (4 / 10)) jolt_norm))
                   opposition_penalty
      in Math_max (Fin (1 / 2)) (Math_min (Fin (15 / 10)) (js_add vitality_raw (Fin (1 / 2)))))"

definition getRecommendation :: "TrigTriad \<Rightarrow> string" where
  "getRecommendation tr =
     (if \<not> isFinite (vhitzee tr) \<or> js_gt (Math_abs (vhitzee tr)) (Fin 3) then ''protect''
      else if js_gt (Math_abs (observer tr)) (Fin (7 / 10)) \<and> js_lt (Math_abs (vhitzee tr)) (Fin 1)
      then ''boost_ok''
      else ''neutral'')"

record OppositionFlags =
  high_stress :: bool
  near_singularity :: bool
  recommendation :: string

record SrvPhasePacket = PhasePacket +
  opposition_flags :: OppositionFlags

text \<open>
  \<^verbatim>\<open>createPhasePacket\<close> of the server is an arrow function written in the constructor of
  \<^verbatim>\<open>SimplifiedTrigFPT\<close>, so its \<^verbatim>\<open>this\<close> is the instance. The instance has the
  properties \<^verbatim>\<open>processor\<close> and \<^verbatim>\<open>registry\<close> and the method \<^verbatim>\<open>processAndLog\<close>;
  \<^verbatim>\<open>computeTriad\<close>, \<^verbatim>\<open>computeVitality\<close> and \<^verbatim>\<open>getRecommendation\<close> are properties of
  \<^verbatim>\<open>this.processor\<close>, not of \<^verbatim>\<open>this\<close>. The second statement of the body,
  \<^verbatim>\<open>this.computeTriad(state)\<close>, therefore calls \<^verbatim>\<open>undefined\<close> and throws a
  \<^verbatim>\<open>TypeError\<close>, on every input, after \<^verbatim>\<open>eegToPhaseState\<close> has returned. The rest of
  the body (vitality, \<^verbatim>\<open>epsilon_d: 0.0417 * vitality\<close>, the opposition flags) never runs.
\<close>

definition srv_createPhasePacket ::
  "nat \<Rightarrow> Bands \<Rightarrow> string \<Rightarrow> string \<Rightarrow> string \<Rightarrow> string option \<Rightarrow> error + SrvPhasePacket" where
  "srv_createPhasePacket now bands nodeId sessionId snhDigest groupId =
     (let st = eegToPhaseState now bands
      in Inl (TypeError ''this.computeTriad is not a function''))"

section \<open>Ledger entries and the digest\<close>

datatype entry_type = PHASE_AGGREGATE | GROUP_COHERENCE | PHASE_REVOCATION

record PhasePayload =
  pl_session_id :: string
  pl_node_id :: string
  pl_group_id :: "string option"
  pl_theta :: jsnum
  pl_amplitude :: jsnum
  pl_phase :: jsnum
  pl_jolt :: jsnum
  pl_observer :: jsnum
  pl_vhitzee :: jsnum
  pl_vitality :: jsnum
  pl_epsilon_d :: jsnum
  pl_snh_digest :: string

record CoherencePayload =
  cp_group_id :: string
  cp_node_count :: nat
  cp_mean_theta :: jsnum
  cp_phase_variance :: jsnum
  cp_synchrony_index :: jsnum
  cp_interpretation :: string

text \<open>The server writes \<^verbatim>\<open>vhitzee\<close> as a number or as the string \<^verbatim>\<open>'INF'\<close>.\<close>

datatype js_value = JNum jsnum | JStr string

record SrvPhasePayload =
  sp_session_id :: string
  sp_node_id :: string
  sp_group_id :: "string option"
  sp_theta :: jsnum
  sp_amplitude :: jsnum
  sp_jolt :: jsnum
  sp_observer :: jsnum
  sp_vhitzee :: js_value
  sp_vitality :: jsnum
  sp_epsilon_d :: jsnum
  sp_opposition :: OppositionFlags

text \<open>
  \<^verbatim>\<open>payload: any\<close>: the payloads the code builds. \<open>GenesisPayload\<close> is the constant
  object literal of \<^verbatim>\<open>createGenesisEntry\<close> (message, designation, kernel,
  \<^verbatim>\<open>trigonometric: true\<close>).
\<close>

datatype payload =
    GenesisPayload
  | Phase PhasePayload
  | Coherence CoherencePayload
  | SrvPhase SrvPhasePayload

record LedgerEntry =
  entry_id :: string
  entry_type :: entry_type
  e_created_at :: jsnum
  payload :: payload
  prev_hash :: string
  hash :: string

text \<open>
  \<^verbatim>\<open>computeHash\<close> writes an object of the five fields \<^verbatim>\<open>entry_id, entry_type,
  created_at, payload, prev_hash\<close> with \<^verbatim>\<open>JSON.stringify\<close> and takes the SHA-256 of the
  text, in hexadecimal.

  The text is modelled by the tree it denotes (\<open>json\<close>), keys in the order of insertion:
  the two determine each other, so the tree loses what \<^verbatim>\<open>JSON.stringify\<close> loses and
  nothing else. \<^verbatim>\<open>NaN\<close> and the infinities are written \<^verbatim>\<open>null\<close>, and a property whose
  value is \<^verbatim>\<open>undefined\<close> is left out. Strings are the bytes of their UTF-8 text, which
  is what the hash function is fed.

  SHA-256 itself is library code: it is the parameter \<open>digest\<close>, of which nothing is
  assumed.
\<close>

datatype json =
    JNull
  | JNumber real
  | JString string
  | JBool bool
  | JObject "(string \<times> json) list"

type_synonym digest = "json \<Rightarrow> string"

fun json_number :: "jsnum \<Rightarrow> json" where
  "json_number (Fin x) = JNumber x"
| "json_number v = JNull"

fun entry_type_text :: "entry_type \<Rightarrow> string" where
  "entry_type_text PHASE_AGGREGATE = ''PHASE_AGGREGATE''"
| "entry_type_text GROUP_COHERENCE = ''GROUP_COHERENCE''"
| "entry_type_text PHASE_REVOCATION = ''PHASE_REVOCATION''"

text \<open>A property that may be \<^verbatim>\<open>undefined\<close>: written if present, left out otherwise.\<close>

fun optional_property :: "string \<Rightarrow> string option \<Rightarrow> (string \<times> json) list" where
  "optional_property key None = []"
| "optional_property key (Some s) = [(key, JString s)]"

text \<open>
  The two strings of the genesis payload that are not ASCII, as UTF-8 bytes: the
  designation (\<open>N\<close>, U+1D52, U+1D63, U+1D57, U+02B0, U+2011, \<open>001\<close>) and the kernel
  (\<open>I\<close>, U+0142, \<open>7\<close>).
\<close>

definition designation_text :: string where
  "designation_text =
     [CHR ''N'', CHR 0xE1, CHR 0xB5, CHR 0x92, CHR 0xE1, CHR 0xB5, CHR 0xA3,
      CHR 0xE1, CHR 0xB5, CHR 0x97, CHR 0xCA, CHR 0xB0, CHR 0xE2, CHR 0x80, CHR 0x91,
      CHR ''0'', CHR ''0'', CHR ''1'']"

definition kernel_text :: string where
  "kernel_text = [CHR ''I'', CHR 0xC5, CHR 0x82, CHR ''7'']"

fun js_value_json :: "js_value \<Rightarrow> json" where
  "js_value_json (JNum v) = json_number v"
| "js_value_json (JStr s) = JString s"

fun payload_json :: "payload \<Rightarrow> json" where
  "payload_json GenesisPayload =
     JObject [(''message'', JString ''North Star Seed Node - Geometric Witness Activated''),
              (''designation'', JString designation_text),
              (''kernel'', JString kernel_text),
              (''trigonometric'', JBool True)]"
| "payload_json (Phase p) =
     JObject ([(''session_id'', JString (pl_session_id p)),
               (''node_id'', JString (pl_node_id p))]
              @ optional_property ''group_id'' (pl_group_id p)
              @ [(''theta'', json_number (pl_theta p)),
                 (''amplitude'', json_number (pl_amplitude p)),
                 (''phase'', json_number (pl_phase p)),
                 (''jolt'', json_number (pl_jolt p)),
                 (''observer'', json_number (pl_observer p)),
                 (''vhitzee'', json_number (pl_vhitzee p)),
                 (''vitality'', json_number (pl_vitality p)),
                 (''epsilon_d'', json_number (pl_epsilon_d p)),
                 (''snh_digest'', JString (pl_snh_digest p))])"
| "payload_json (Coherence p) =
     JObject [(''group_id'', JString (cp_group_id p)),
              (''node_count'', JNumber (real (cp_node_count p))),
              (''mean_theta'', json_number (cp_mean_theta p)),
              (''phase_variance'', json_number (cp_phase_variance p)),
              (''synchrony_index'', json_number (cp_synchrony_index p)),
              (''interpretation'', JString (cp_interpretation p))]"
| "payload_json (SrvPhase p) =
     JObject ([(''session_id'', JString (sp_session_id p)),
               (''node_id'', JString (sp_node_id p))]
              @ optional_property ''group_id'' (sp_group_id p)
              @ [(''theta'', json_number (sp_theta p)),
                 (''amplitude'', json_number (sp_amplitude p)),
                 (''jolt'', json_number (sp_jolt p)),
                 (''observer'', json_number (sp_observer p)),
                 (''vhitzee'', js_value_json (sp_vhitzee p)),
                 (''vitality'', json_number (sp_vitality p)),
                 (''epsilon_d'', json_number (sp_epsilon_d p)),
                 (''opposition'',
                    JObject [(''high_stress'', JBool (high_stress (sp_opposition p))),
                             (''near_singularity'', JBool (near_singularity (sp_opposition p))),
                             (''recommendation'', JString (recommendation (sp_opposition p)))])])"

definition computeHash :: "digest \<Rightarrow> LedgerEntry \<Rightarrow> string" where
  "computeHash digest entry =
     (let canonical = JObject [(''entry_id'', JString (entry_id entry)),
                               (''entry_type'', JString (entry_type_text (entry_type entry))),
                               (''created_at'', json_number (e_created_at entry)),
                               (''payload'', payload_json (payload entry)),
                               (''prev_hash'', JString (prev_hash entry))]
      in digest canonical)"

text \<open>Decimal text of a natural number, as a template literal renders \<^verbatim>\<open>Date.now()\<close>.\<close>

fun show_nat :: "nat \<Rightarrow> string" where
  "show_nat n =
     (if n < 10 then [''0123456789'' ! n]
      else show_nat (n div 10) @ [''0123456789'' ! (n mod 10)])"

declare show_nat.simps [simp del]

section \<open>Sovereign neurodata header\<close>

datatype retention_mode = Ephemeral | Bounded | Indefinite

datatype revocation_policy = Stop_future_use | Delete_raw | Keep_aggregates

record ConsentSpec =
  scope :: "string list"
  retention_mode :: retention_mode
  revocation_policy :: revocation_policy
  prohibited :: "string list"

datatype neurodata_class = Raw | Windowed | Aggregate

datatype sharing_level = Local_only | Group_resonance | Research_aggregate

record SovereignNeurodataHeader =
  snh_version :: string
  snh_session_id :: string
  consent :: ConsentSpec
  neurodata_class :: neurodata_class
  sharing_level :: sharing_level
  snh_created_at :: jsnum
  revocation_token :: "string option"

section \<open>SolitonRegistry (\<^verbatim>\<open>src/core/trigonometric_fpt.ts\<close>)\<close>

record GroupPhaseState =
  gs_group_id :: string
  node_states :: "(string \<times> TrigState) list"
  mean_theta :: jsnum
  phase_variance :: jsnum
  synchrony_index :: jsnum
  gs_timestamp :: jsnum

text \<open>
  A JavaScript \<^verbatim>\<open>Map\<close> keeps its keys in insertion order, and \<^verbatim>\<open>set\<close> on a key that
  is present replaces the value where it stands: an association list with that update.
\<close>

fun Map_set :: "'k \<Rightarrow> 'v \<Rightarrow> ('k \<times> 'v) list \<Rightarrow> ('k \<times> 'v) list" where
  "Map_set k v [] = [(k, v)]"
| "Map_set k v ((k', v') # m) = (if k' = k then (k, v) # m else (k', v') # Map_set k v m)"

fun Map_get :: "('k \<times> 'v) list \<Rightarrow> 'k \<Rightarrow> 'v option" where
  "Map_get [] k = None"
| "Map_get ((k', v') # m) k = (if k' = k then Some v' else Map_get m k)"

text \<open>
  The registry's three private fields, and the events handed to \<^verbatim>\<open>EventEmitter.emit\<close>
  in the order of the calls.
\<close>

record SolitonRegistry =
  ledger :: "LedgerEntry list"
  nodeStates :: "(string \<times> TrigState) list"
  groupStates :: "(string \<times> GroupPhaseState) list"
  emitted :: "(string \<times> LedgerEntry) list"

text \<open>
  What one call of \<^verbatim>\<open>logPhasePacket\<close> reads from the clock and from
  \<^verbatim>\<open>Math.random\<close>, in the order of the reads. \<open>rand_phase\<close> and \<open>rand_coherence\<close>
  are the text \<^verbatim>\<open>Math.random().toString(36).substr(2, 9)\<close>.
\<close>

record LogEnv =
  now_phase :: nat
  rand_phase :: string
  now_group :: nat
  now_coherence :: nat
  rand_coherence :: string

definition createGenesisEntry :: "digest \<Rightarrow> nat \<Rightarrow> LedgerEntry" where
  "createGenesisEntry digest now =
     (let genesis = \<lparr> entry_id = ''genesis-north-001'',
                       entry_type = PHASE_AGGREGATE,
                       e_created_at = Fin (real now),
                       payload = GenesisPayload,
                       prev_hash = replicate 64 (CHR ''0''),
                       hash = [] \<rparr>
      in genesis\<lparr> hash := computeHash digest genesis \<rparr>)"

text \<open>The constructor: the ledger starts with the genesis entry, the maps are empty.\<close>

definition new_SolitonRegistry :: "digest \<Rightarrow> nat \<Rightarrow> SolitonRegistry" where
  "new_SolitonRegistry digest now =
     \<lparr> ledger = [createGenesisEntry digest now], nodeStates = [], groupStates = [], emitted = [] \<rparr>"

definition interpretCoherence :: "jsnum \<Rightarrow> string" where
  "interpretCoherence synchrony =
     (if js_gt synchrony (Fin (8 / 10)) then ''COLLECTIVE_COIL_ENGAGED''
      else if js_gt synchrony (Fin (6 / 10)) then ''HIGH_COHERENCE''
      else if js_gt synchrony (Fin (4 / 10)) then ''MODERATE_COHERENCE''
      else ''LOW_COHERENCE'')"

definition allowedScopes :: "string list" where
  "allowedScopes = [''group_resonance_aggregate'', ''research_aggregate'']"

definition validateConsent :: "SovereignNeurodataHeader \<Rightarrow> bool" where
  "validateConsent snh = list_ex (\<lambda>s. s \<in> set allowedScopes) (scope (consent snh))"

text \<open>
  \<^verbatim>\<open>this.ledger[this.ledger.length - 1].hash\<close> on an empty ledger reads a property of
  \<^verbatim>\<open>undefined\<close> and throws a \<^verbatim>\<open>TypeError\<close>.
\<close>

definition undefined_hash :: error where
  "undefined_hash = TypeError ''Cannot read properties of undefined (reading hash)''"

text \<open>
  A method that mutates the registry and may throw returns the thrown error, if any,
  together with the registry as the call left it.
\<close>

text \<open>
  The entry object of \<^verbatim>\<open>logGroupCoherence\<close>, built with an empty \<^verbatim>\<open>hash\<close> that is
  then assigned; \<open>prev\<close> is the hash read from the ledger's tail.
\<close>

definition coherence_entry :: "digest \<Rightarrow> LogEnv \<Rightarrow> GroupPhaseState \<Rightarrow> string \<Rightarrow> LedgerEntry" where
  "coherence_entry digest env groupState prev =
     (let entry = \<lparr> entry_id = ''coherence-'' @ show_nat (now_coherence env) @ ''-'' @ rand_coherence env,
                     entry_type = GROUP_COHERENCE,
                     e_created_at = gs_timestamp groupState,
                     payload = Coherence
                       \<lparr> cp_group_id = gs_group_id groupState,
                         cp_node_count = length (node_states groupState),
                         cp_mean_theta = mean_theta groupState,
                         cp_phase_variance = phase_variance groupState,
                         cp_synchrony_index = synchrony_index groupState,
                         cp_interpretation = interpretCoherence (synchrony_index groupState) \<rparr>,
                     prev_hash = prev,
                     hash = [] \<rparr>
      in entry\<lparr> hash := computeHash digest entry \<rparr>)"

definition logGroupCoherence ::
  "digest \<Rightarrow> LogEnv \<Rightarrow> GroupPhaseState \<Rightarrow> SolitonRegistry \<Rightarrow> error option \<times> SolitonRegistry" where
  "logGroupCoherence digest env groupState this =
     (if ledger this = [] then (Some undefined_hash, this)
      else
        let entry = coherence_entry digest env groupState (hash (last (ledger this)))
        in (None, this\<lparr> ledger := ledger this @ [entry],
                         emitted := emitted this @ [(''coherence_logged'', entry)] \<rparr>))"

text \<open>The circular statistics of \<^verbatim>\<open>updateGroupCoherence\<close>, on the collected states.\<close>

definition circular_mean :: "TrigState list \<Rightarrow> jsnum" where
  "circular_mean groupNodes =
     (let sin_sum = foldl (\<lambda>sum s. js_add sum (Math_sin (theta s))) (Fin 0) groupNodes;
          cos_sum = foldl (\<lambda>sum s. js_add sum (Math_cos (theta s))) (Fin 0) groupNodes
      in Math_atan2 sin_sum cos_sum)"

definition angular_variance :: "TrigState list \<Rightarrow> jsnum \<Rightarrow> jsnum" where
  "angular_variance groupNodes mean =
     (let deviations = map (\<lambda>s. let diff = js_sub (theta s) mean
                                 in Math_min (Math_abs diff)
                                      (js_sub (js_mul (Fin 2) (Fin pi)) (Math_abs diff)))
                           groupNodes
      in js_div (foldl (\<lambda>sum d. js_add sum (js_mul d d)) (Fin 0) deviations)
                (Fin (real (length deviations))))"

text \<open>
  The \<^verbatim>\<open>groupState\<close> object of \<^verbatim>\<open>updateGroupCoherence\<close>. Its states are collected
  by a \<^verbatim>\<open>forEach\<close> that pushes every entry of \<^verbatim>\<open>nodeStates\<close> (the membership test is
  a comment: \<^verbatim>\<open>In real implementation, check if node belongs to group\<close>), and its
  \<^verbatim>\<open>node_states\<close> by a filter whose predicate is the constant \<^verbatim>\<open>true\<close>
  (\<^verbatim>\<open>Filter by group in real impl\<close>).
\<close>

definition group_state :: "LogEnv \<Rightarrow> string \<Rightarrow> (string \<times> TrigState) list \<Rightarrow> GroupPhaseState" where
  "group_state env groupId nodes =
     (let groupNodes = map (\<lambda>(nodeId, st). st) nodes;
          mean = circular_mean groupNodes;
          variance = angular_variance groupNodes mean;
          synchrony = js_div (Fin 1) (js_add (Fin 1) variance)
      in \<lparr> gs_group_id = groupId,
           node_states = filter (\<lambda>(u, st). True) nodes,
           mean_theta = mean,
           phase_variance = variance,
           synchrony_index = synchrony,
           gs_timestamp = Fin (real (now_group env)) \<rparr>)"

definition updateGroupCoherence ::
  "digest \<Rightarrow> LogEnv \<Rightarrow> string \<Rightarrow> SolitonRegistry \<Rightarrow> error option \<times> SolitonRegistry" where
  "updateGroupCoherence digest env groupId this =
     (let groupNodes = map (\<lambda>(nodeId, st). st) (nodeStates this)
      in if length groupNodes = 0 then (None, this)
         else
           let groupState = group_state env groupId (nodeStates this)
           in logGroupCoherence digest env groupState
                (this\<lparr> groupStates := Map_set groupId groupState (groupStates this) \<rparr>))"

definition phase_payload :: "PhasePacket \<Rightarrow> PhasePayload" where
  "phase_payload packet =
     \<lparr> pl_session_id = session_id packet,
       pl_node_id = node_id packet,
       pl_group_id = group_id packet,
       pl_theta = theta (state packet),
       pl_amplitude = amplitude (state packet),
       pl_phase = phase (state packet),
       pl_jolt = jolt (triad packet),
       pl_observer = observer (triad packet),
       pl_vhitzee = vhitzee (triad packet),
       pl_vitality = vitality packet,
       pl_epsilon_d = epsilon_d packet,
       pl_snh_digest = snh_digest packet \<rparr>"

text \<open>\<^verbatim>\<open>if (packet.group_id)\<close>: an absent or empty \<^verbatim>\<open>group_id\<close> is falsy.\<close>

fun truthy :: "string option \<Rightarrow> bool" where
  "truthy None = False"
| "truthy (Some s) = (s \<noteq> [])"

definition phase_entry :: "digest \<Rightarrow> LogEnv \<Rightarrow> PhasePacket \<Rightarrow> string \<Rightarrow> LedgerEntry" where
  "phase_entry digest env packet prev =
     (let entry = \<lparr> entry_id = ''phase-'' @ show_nat (now_phase env) @ ''-'' @ rand_phase env,
                     entry_type = PHASE_AGGREGATE,
                     e_created_at = created_at packet,
                     payload = Phase (phase_payload packet),
                     prev_hash = prev,
                     hash = [] \<rparr>
      in entry\<lparr> hash := computeHash digest entry \<rparr>)"

definition logPhasePacket ::
  "digest \<Rightarrow> LogEnv \<Rightarrow> PhasePacket \<Rightarrow> SovereignNeurodataHeader \<Rightarrow> SolitonRegistry
     \<Rightarrow> error option \<times> SolitonRegistry" where
  "logPhasePacket digest env packet snh this =
     (if \<not> validateConsent snh then (Some (Error ''Consent validation failed''), this)
      else if neurodata_class snh = Raw
      then (Some (Error ''Raw neurodata cannot be logged to registry''), this)
      else if ledger this = [] then (Some undefined_hash, this)
      else
        let entry = phase_entry digest env packet (hash (last (ledger this)));
            this1 = this\<lparr> ledger := ledger this @ [entry] \<rparr>;
            this2 = this1\<lparr> nodeStates := Map_set (node_id packet) (state packet) (nodeStates this1) \<rparr>;
            (err, this3) = (if truthy (group_id packet)
                            then updateGroupCoherence digest env (the (group_id packet)) this2
                            else (None, this2))
        in case err of
             Some e \<Rightarrow> (Some e, this3)
           | None \<Rightarrow> (None, this3\<lparr> emitted := emitted this3 @ [(''phase_logged'', entry)] \<rparr>))"

text \<open>
  \<^verbatim>\<open>verifyIntegrity\<close>: the loop from index 1, with what it writes to
  \<^verbatim>\<open>console.error\<close>. It returns a bare boolean; the index is in the message only.
\<close>

function verifyLoop :: "digest \<Rightarrow> LedgerEntry list \<Rightarrow> nat \<Rightarrow> bool \<times> string list" where
  "verifyLoop digest l i =
     (if i < length l then
        (let entry = l ! i; prevEntry = l ! (i - 1)
         in if prev_hash entry \<noteq> hash prevEntry
            then (False, [''Integrity violation at entry '' @ show_nat i])
            else if hash entry \<noteq> computeHash digest entry
            then (False, [''Hash mismatch at entry '' @ show_nat i])
            else verifyLoop digest l (i + 1))
      else (True, []))"
  by pat_completeness auto
termination
  by (relation "measure (\<lambda>(digest, l, i). length l - i)") auto

declare verifyLoop.simps [simp del]

definition verifyIntegrity :: "digest \<Rightarrow> SolitonRegistry \<Rightarrow> bool \<times> string list" where
  "verifyIntegrity digest this = verifyLoop digest (ledger this) 1"

definition getLedger :: "SolitonRegistry \<Rightarrow> LedgerEntry list" where
  "getLedger this = ledger this"

section \<open>SimplifiedTrigFPT.registry and the server's handlers (\<^verbatim>\<open>src/unnamed/part_000\<close>)\<close>

record SrvGroupState =
  sg_group_id :: string
  sg_node_count :: nat
  sg_mean_theta :: jsnum
  sg_phase_variance :: jsnum
  sg_synchrony_index :: jsnum
  sg_status :: string
  sg_timestamp :: jsnum

record SrvRegistry =
  srv_ledger :: "LedgerEntry list"
  srv_nodeStates :: "(string \<times> TrigState) list"
  srv_groupStates :: "(string \<times> SrvGroupState) list"

definition new_SrvRegistry :: SrvRegistry where
  "new_SrvRegistry = \<lparr> srv_ledger = [], srv_nodeStates = [], srv_groupStates = [] \<rparr>"

text \<open>The clock and random reads of one \<^verbatim>\<open>processAndLog\<close>, in the order of the reads.\<close>

record SrvEnv =
  s_now_state :: nat
  s_now_phase :: nat
  s_rand_phase :: string
  s_now_group :: nat

definition srv_group_state :: "SrvEnv \<Rightarrow> string \<Rightarrow> TrigState list \<Rightarrow> SrvGroupState" where
  "srv_group_state env groupId nodes =
     (let mean = circular_mean nodes;
          variance = angular_variance nodes mean;
          synchrony = js_div (Fin 1) (js_add (Fin 1) variance);
          status = (if js_gt synchrony (Fin (8 / 10)) then ''COLLECTIVE_COIL_ENGAGED''
                    else if js_gt synchrony (Fin (6 / 10)) then ''HIGH_COHERENCE''
                    else if js_gt synchrony (Fin (4 / 10)) then ''MODERATE_COHERENCE''
                    else ''LOW_COHERENCE'')
      in \<lparr> sg_group_id = groupId,
           sg_node_count = length nodes,
           sg_mean_theta = mean,
           sg_phase_variance = variance,
           sg_synchrony_index = synchrony,
           sg_status = status,
           sg_timestamp = Fin (real (s_now_group env)) \<rparr>)"

text \<open>\<^verbatim>\<open>Array.from(this.nodeStates.values())\<close>: every state of the map, whatever its group.\<close>

definition srv_updateGroupCoherence :: "SrvEnv \<Rightarrow> string \<Rightarrow> SrvRegistry \<Rightarrow> SrvRegistry" where
  "srv_updateGroupCoherence env groupId this =
     (let nodes = map snd (srv_nodeStates this)
      in if length nodes = 0 then this
         else this\<lparr> srv_groupStates :=
                      Map_set groupId (srv_group_state env groupId nodes) (srv_groupStates this) \<rparr>)"

definition srv_phase_payload :: "SrvPhasePacket \<Rightarrow> SrvPhasePayload" where
  "srv_phase_payload packet =
     \<lparr> sp_session_id = session_id packet,
       sp_node_id = node_id packet,
       sp_group_id = group_id packet,
       sp_theta = theta (state packet),
       sp_amplitude = amplitude (state packet),
       sp_jolt = jolt (triad packet),
       sp_observer = observer (triad packet),
       sp_vhitzee = (if isFinite (vhitzee (triad packet)) then JNum (vhitzee (triad packet))
                     else JStr ''INF''),
       sp_vitality = vitality packet,
       sp_epsilon_d = epsilon_d packet,
       sp_opposition = opposition_flags packet \<rparr>"

definition srv_phase_entry :: "digest \<Rightarrow> SrvEnv \<Rightarrow> SrvPhasePacket \<Rightarrow> string \<Rightarrow> LedgerEntry" where
  "srv_phase_entry digest env packet prev =
     (let entry = \<lparr> entry_id = ''phase-'' @ show_nat (s_now_phase env) @ ''-'' @ s_rand_phase env,
                     entry_type = PHASE_AGGREGATE,
                     e_created_at = created_at packet,
                     payload = SrvPhase (srv_phase_payload packet),
                     prev_hash = prev,
                     hash = [] \<rparr>
      in entry\<lparr> hash := computeHash digest entry \<rparr>)"

definition srv_logPhasePacket :: "digest \<Rightarrow> SrvEnv \<Rightarrow> SrvPhasePacket \<Rightarrow> SrvRegistry \<Rightarrow> SrvRegistry" where
  "srv_logPhasePacket digest env packet this =
     (let entry = srv_phase_entry digest env packet
                    (if 0 < length (srv_ledger this) then hash (last (srv_ledger this))
                     else replicate 64 (CHR ''0''));
          this1 = this\<lparr> srv_ledger := srv_ledger this @ [entry] \<rparr>;
          this2 = this1\<lparr> srv_nodeStates :=
                           Map_set (node_id packet) (state packet) (srv_nodeStates this1) \<rparr>
      in if truthy (group_id packet)
         then srv_updateGroupCoherence env (the (group_id packet)) this2
         else this2)"

text \<open>
  \<^verbatim>\<open>processAndLog\<close>: the throw of \<^verbatim>\<open>createPhasePacket\<close> leaves the method before
  \<^verbatim>\<open>this.registry.logPhasePacket\<close> is called.
\<close>

definition processAndLog ::
  "digest \<Rightarrow> SrvEnv \<Rightarrow> Bands \<Rightarrow> string \<Rightarrow> string \<Rightarrow> string \<Rightarrow> string option \<Rightarrow> SrvRegistry
     \<Rightarrow> (error + SrvPhasePacket) \<times> SrvRegistry" where
  "processAndLog digest env bands nodeId sessionId snhDigest groupId this =
     (case srv_createPhasePacket (s_now_state env) bands nodeId sessionId snhDigest groupId of
        Inl e \<Rightarrow> (Inl e, this)
      | Inr packet \<Rightarrow> (Inr packet, srv_logPhasePacket digest env packet this))"

text \<open>
  The state a request handler can reach: the geometric registry and the file
  \<^verbatim>\<open>ledger.json\<close> of the legacy endpoints (its text, if the file exists).
\<close>

record ServerState =
  geometricFPT :: SrvRegistry
  ledger_json :: "string option"

record RevokeBody =
  rb_revocation_token :: "string option"
  rb_session_id :: "string option"

text \<open>A response: the HTTP status and the fields of the JSON body.\<close>

datatype response = Response nat "(string \<times> string option) list"

text \<open>
  \<^verbatim>\<open>POST /revoke\<close>. Between the token check and the response the handler holds two
  comment lines only (\<^verbatim>\<open>In full implementation: find and mark entries as revoked\<close>,
  \<^verbatim>\<open>For now, just acknowledge\<close>).
\<close>

definition post_revoke :: "RevokeBody \<Rightarrow> ServerState \<Rightarrow> response \<times> ServerState" where
  "post_revoke body srv =
     (if \<not> truthy (rb_revocation_token body)
      then (Response 400 [(''error'', Some ''Revocation token required'')], srv)
      else (Response 200 [(''status'', Some ''revoked''),
                          (''message'', Some ''Revocation honored''),
                          (''session_id'', rb_session_id body)], srv))"

section \<open>Reachable registries and the chain invariant\<close>

text \<open>
  The states of a \<^verbatim>\<open>SolitonRegistry\<close>: the constructor's, and those a call of the one
  public mutator leaves, whether it returns or throws.
\<close>

inductive reachable :: "digest \<Rightarrow> SolitonRegistry \<Rightarrow> bool" for digest :: digest where
  reachable_new: "reachable digest (new_SolitonRegistry digest now)"
| reachable_log:
    "reachable digest this \<Longrightarrow> reachable digest (snd (logPhasePacket digest env packet snh this))"

text \<open>
  The states of the server's registry under calls of \<^verbatim>\<open>registry.logPhasePacket\<close>.
  \<^verbatim>\<open>processAndLog\<close>, its one caller, throws before it makes the call, so the server
  itself stays at the empty registry; the closure below is over every call the function
  can be given.
\<close>

inductive srv_reachable :: "digest \<Rightarrow> SrvRegistry \<Rightarrow> bool" for digest :: digest where
  srv_reachable_new: "srv_reachable digest new_SrvRegistry"
| srv_reachable_log:
    "srv_reachable digest this \<Longrightarrow> srv_reachable digest (srv_logPhasePacket digest env packet this)"

text \<open>
  The canonical encoding of an entry's hashed fields, as the specification names them:
  \<open>entry_id\<close>, \<open>entry_type\<close>, \<open>created_at\<close>, \<open>payload\<close>, \<open>prev_hash\<close> (the entry minus
  its \<open>hash\<close>), written as JSON. It is stated here on its own, apart from
  \<^verbatim>\<open>computeHash\<close>, so that the invariant says what is hashed.
\<close>

definition canonical_encoding :: "LedgerEntry \<Rightarrow> json" where
  "canonical_encoding e =
     JObject [(''entry_id'', JString (entry_id e)),
              (''entry_type'', JString (entry_type_text (entry_type e))),
              (''created_at'', json_number (e_created_at e)),
              (''payload'', payload_json (payload e)),
              (''prev_hash'', JString (prev_hash e))]"

text \<open>
  The chain invariant on a ledger: every entry after the first names its predecessor's
  hash, and its own hash is the digest of the canonical encoding of its five fields.
\<close>

definition chain_invariant :: "digest \<Rightarrow> LedgerEntry list \<Rightarrow> bool" where
  "chain_invariant digest l =
     list_all (\<lambda>i. prev_hash (l ! i) = hash (l ! (i - 1))
                  \<and> hash (l ! i) = digest (canonical_encoding (l ! i)))
              [1..<length l]"

text \<open>Overwriting the payload of the entry at index \<open>k\<close>, every hash left as it was.\<close>

definition corrupt_payload :: "nat \<Rightarrow> payload \<Rightarrow> LedgerEntry list \<Rightarrow> LedgerEntry list" where
  "corrupt_payload k p l = l[k := (l ! k)\<lparr> payload := p \<rparr>]"

section \<open>Input domains\<close>

text \<open>A header passes the two checks at the head of \<^verbatim>\<open>logPhasePacket\<close>.\<close>

definition accepted :: "SovereignNeurodataHeader \<Rightarrow> bool" where
  "accepted snh \<longleftrightarrow> validateConsent snh \<and> neurodata_class snh \<noteq> Raw"


section \<open>Worked inputs\<close>

text \<open>
  A stand-in digest for the worked examples (the theorems hold for every digest): the
  string values of the text, in order, each followed by a bar.
\<close>

fun demo_digest :: digest where
  "demo_digest (JString s) = s @ ''|''"
| "demo_digest (JObject kvs) = concat (map (\<lambda>kv. demo_digest (snd kv)) kvs)"
| "demo_digest v = []"

definition demo_env :: LogEnv where
  "demo_env = \<lparr> now_phase = 7, rand_phase = ''k3j9x0q1z'', now_group = 8, now_coherence = 9,
                rand_coherence = ''a8s7d6f5g'' \<rparr>"

definition demo_srv_env :: SrvEnv where
  "demo_srv_env = \<lparr> s_now_state = 5, s_now_phase = 7,
                    s_rand_phase = ''k3j9x0q1z'', s_now_group = 8 \<rparr>"

text \<open>The header of the repository's own demonstration, and the same header marked raw.\<close>

definition demo_snh :: SovereignNeurodataHeader where
  "demo_snh = \<lparr> snh_version = ''1.0.0'',
                snh_session_id = ''demo-session-geometric-001'',
                consent = \<lparr> scope = [''group_resonance_aggregate''],
                            retention_mode = Bounded,
                            revocation_policy = Stop_future_use,
                            prohibited = [''identity_linkage''] \<rparr>,
                neurodata_class = Aggregate,
                sharing_level = Group_resonance,
                snh_created_at = Fin 0,
                revocation_token = None \<rparr>"

definition raw_snh :: SovereignNeurodataHeader where
  "raw_snh = demo_snh\<lparr> neurodata_class := Raw \<rparr>"

definition zero_state :: TrigState where
  "zero_state = \<lparr> theta = Fin 0, amplitude = Fin 0, phase = Fin 0, timestamp = Fin 0 \<rparr>"

definition unit_state :: "real \<Rightarrow> TrigState" where
  "unit_state t = \<lparr> theta = Fin t, amplitude = Fin 1, phase = Fin 0, timestamp = Fin 0 \<rparr>"

text \<open>
  A state whose \<open>theta\<close> and \<open>phase\<close> are both \<open>2^1023\<close>, a double: their sum overflows.
\<close>

definition overflow_state :: TrigState where
  "overflow_state = \<lparr> theta = Fin (2 ^ 1023), amplitude = Fin 1, phase = Fin (2 ^ 1023),
                      timestamp = Fin 0 \<rparr>"

text \<open>Two nodes that report different groups.\<close>

definition packet_alpha :: PhasePacket where
  "packet_alpha = createPhasePacket default_processor 1 (unit_state 0) ''Node_Alpha''
                    ''demo-session-geometric-001'' ''digest'' (Some ''group-a'')"

definition packet_gamma :: PhasePacket where
  "packet_gamma = createPhasePacket default_processor 2 (unit_state (pi / 2)) ''Node_Gamma''
                    ''demo-session-geometric-001'' ''digest'' (Some ''group-b'')"

text \<open>Packets without a group, at \<open>theta = 0\<close> and at \<open>theta = pi / 2\<close>.\<close>

definition packet_solo :: PhasePacket where
  "packet_solo = createPhasePacket default_processor 1 (unit_state 0) ''Node_Alpha''
                   ''demo-session-geometric-001'' ''digest'' None"

definition packet_zenith :: PhasePacket where
  "packet_zenith = createPhasePacket default_processor 1 (unit_state (pi / 2)) ''Node_Gamma''
                     ''demo-session-geometric-001'' ''digest'' None"

text \<open>Registries built from the worked packets.\<close>

definition demo_registry0 :: SolitonRegistry where
  "demo_registry0 = new_SolitonRegistry demo_digest 0"

definition demo_registry1 :: SolitonRegistry where
  "demo_registry1 = snd (logPhasePacket demo_digest demo_env packet_solo demo_snh demo_registry0)"

definition zenith_registry :: SolitonRegistry where
  "zenith_registry = snd (logPhasePacket demo_digest demo_env packet_zenith demo_snh demo_registry0)"

definition alpha_registry :: SolitonRegistry where
  "alpha_registry = snd (logPhasePacket demo_digest demo_env packet_alpha demo_snh demo_registry0)"

definition two_groups_registry :: SolitonRegistry where
  "two_groups_registry =
     snd (logPhasePacket demo_digest demo_env packet_gamma demo_snh alpha_registry)"

text \<open>
  Two overwritten payloads for the entry of \<open>packet_zenith\<close>: one with another node id,
  one with the infinite \<open>vhitzee\<close> turned from plus to minus infinity.
\<close>

definition renamed_payload :: payload where
  "renamed_payload = Phase ((phase_payload packet_zenith)\<lparr> pl_node_id := ''Node_Omega'' \<rparr>)"

definition flipped_payload :: payload where
  "flipped_payload = Phase ((phase_payload packet_zenith)\<lparr> pl_vhitzee := NInf \<rparr>)"

text \<open>A packet handed to the server's \<^verbatim>\<open>registry.logPhasePacket\<close> directly.\<close>

definition srv_packet :: SrvPhasePacket where
  "srv_packet =
     \<lparr> packet_version = ''1.0.0-trig'',
       session_id = ''test-session'',
       node_id = ''Test_Node'',
       group_id = None,
       state = \<lparr> theta = Fin 0, amplitude = Fin (1 / 2), phase = Fin 0, timestamp = Fin 5 \<rparr>,
       triad = \<lparr> jolt = Fin 0, observer = Fin (1 / 2), vhitzee = Fin 0 \<rparr>,
       vitality = Fin (8 / 10),
       epsilon_d = Fin (417 / 10000 * (8 / 10)),
       snh_digest = ''none'',
       created_at = Fin 6,
       opposition_flags = \<lparr> high_stress = False, near_singularity = False,
                             recommendation = ''neutral'' \<rparr> \<rparr>"

text \<open>The server's registry after one and after two direct calls.\<close>

definition srv_registry1 :: SrvRegistry where
  "srv_registry1 = srv_logPhasePacket demo_digest demo_srv_env srv_packet new_SrvRegistry"

definition srv_registry2 :: SrvRegistry where
  "srv_registry2 = srv_logPhasePacket demo_digest demo_srv_env srv_packet srv_registry1"

section \<open>Properties of the state transform\<close>

subsection \<open>Overflow\<close>

lemma overflow_bound_large: "16 < overflow_bound"
  by (simp add: overflow_bound_def)

lemma overflow_in_range: "\<bar>x\<bar> < overflow_bound \<Longrightarrow> overflow x = Fin x"
  by (auto simp: overflow_def)

lemma overflow_small: "\<bar>x\<bar> \<le> 16 \<Longrightarrow> overflow x = Fin x"
  using overflow_bound_large by (intro overflow_in_range) linarith


lemma overflow_nonneg: "0 \<le> x \<Longrightarrow> overflow x = Fin x \<or> overflow x = PInf"
  using overflow_bound_large by (auto simp: overflow_def)

lemma overflow_sum_2_1023: "overflow (2 ^ 1023 + 2 ^ 1023) = PInf"
  by (simp add: overflow_def overflow_bound_def)

subsection \<open>Clamping and the opposition penalty\<close>

lemma Math_min_Fin: "Math_min (Fin x) (Fin y) = Fin (min x y)"
  by (simp add: min_def)

lemma Math_max_Fin: "Math_max (Fin x) (Fin y) = Fin (max x y)"
  by (simp add: max_def)

lemma clamp_Fin:
  "\<exists>v. Math_max (Fin (1 / 2)) (Math_min (Fin (15 / 10)) (Fin r)) = Fin v \<and> 1 / 2 \<le> v \<and> v \<le> 3 / 2"
proof (intro exI conjI)
  show "Math_max (Fin (1 / 2)) (Math_min (Fin (15 / 10)) (Fin r)) = Fin (max (1 / 2) (min (15 / 10) r))"
    by (simp only: Math_min_Fin Math_max_Fin)
  show "1 / 2 \<le> max (1 / 2) (min (15 / 10) r)" by simp
  show "max (1 / 2) (min (15 / 10) r) \<le> 3 / 2" by simp
qed

lemma three_tenths_ok: "\<exists>x. Fin (3 / 10) = Fin x \<and> 0 \<le> x \<and> x \<le> 3 / 10"
  by (rule exI [of _ "3 / 10"]) simp

lemma one_ok: "\<exists>x. Fin 1 = Fin x \<and> 0 \<le> x \<and> x \<le> (1::real)"
  by (rule exI [of _ 1]) simp

lemma norm_Fin: "a \<noteq> NaN \<Longrightarrow> \<exists>x. Math_min (Math_abs a) (Fin 1) = Fin x \<and> 0 \<le> x \<and> x \<le> 1"
proof (cases a)
  case (Fin x)
  have "Math_min (Math_abs (Fin x)) (Fin 1) = Fin (min \<bar>x\<bar> 1)"
    by (simp only: Math_abs.simps Math_min_Fin)
  moreover have "0 \<le> min \<bar>x\<bar> 1" "min \<bar>x\<bar> 1 \<le> 1" by simp_all
  ultimately show ?thesis using Fin by blast
next
  case PInf
  have "Math_min (Math_abs PInf) (Fin 1) = Fin 1" by simp
  with PInf one_ok show ?thesis by metis
next
  case NInf
  have "Math_min (Math_abs NInf) (Fin 1) = Fin 1" by simp
  with NInf one_ok show ?thesis by metis
next
  case NaN
  assume "a \<noteq> NaN"
  with NaN show ?thesis by simp
qed

lemma Math_min_three_tenths:
  "v = Fin y \<or> v = PInf \<Longrightarrow> 0 \<le> y \<Longrightarrow>
     \<exists>x. Math_min v (Fin (3 / 10)) = Fin x \<and> 0 \<le> x \<and> x \<le> 3 / 10"
proof (erule disjE)
  assume v: "v = Fin y" and y: "0 \<le> y"
  have "Math_min (Fin y) (Fin (3 / 10)) = Fin (min y (3 / 10))" by (rule Math_min_Fin)
  moreover from y have "0 \<le> min y (3 / 10)" "min y (3 / 10) \<le> 3 / 10" by simp_all
  ultimately show ?thesis using v by blast
next
  assume v: "v = PInf"
  have "Math_min PInf (Fin (3 / 10)) = Fin (3 / 10)" by simp
  with v three_tenths_ok show ?thesis by metis
qed

lemma scaled_Fin:
  "a \<noteq> NaN \<Longrightarrow>
     \<exists>x. Math_min (js_div (Math_abs a) (Fin 10)) (Fin (3 / 10)) = Fin x \<and> 0 \<le> x \<and> x \<le> 3 / 10"
proof (cases a)
  case (Fin v)
  have d: "js_div (Math_abs (Fin v)) (Fin 10) = overflow (\<bar>v\<bar> / 10)" by simp
  have "0 \<le> \<bar>v\<bar> / 10" by simp
  from overflow_nonneg [OF this] Math_min_three_tenths [of "overflow (\<bar>v\<bar> / 10)" "\<bar>v\<bar> / 10"]
  show ?thesis unfolding Fin d by simp
next
  case PInf
  have "Math_min (js_div (Math_abs PInf) (Fin 10)) (Fin (3 / 10)) = Fin (3 / 10)" by simp
  with PInf three_tenths_ok show ?thesis by metis
next
  case NInf
  have "Math_min (js_div (Math_abs NInf) (Fin 10)) (Fin (3 / 10)) = Fin (3 / 10)" by simp
  with NInf three_tenths_ok show ?thesis by metis
next
  case NaN
  assume "a \<noteq> NaN"
  with NaN show ?thesis by simp
qed

lemma penalty_Fin:
  "vhitzee tr \<noteq> NaN \<Longrightarrow> \<exists>x. opposition_penalty tr = Fin x \<and> 0 \<le> x \<and> x \<le> 3 / 10"
  unfolding opposition_penalty_def by (rule scaled_Fin)

lemma srv_penalty_Fin: "\<exists>x. srv_opposition_penalty tr = Fin x \<and> 0 \<le> x \<and> x \<le> 3 / 10"
proof (cases "isFinite (vhitzee tr)")
  case True
  then have "vhitzee tr \<noteq> NaN" by auto
  from scaled_Fin [OF this] True show ?thesis
    by (simp only: srv_opposition_penalty_def if_True)
next
  case False
  then have "srv_opposition_penalty tr = Fin (3 / 10)"
    by (simp only: srv_opposition_penalty_def if_False)
  with three_tenths_ok show ?thesis by metis
qed

lemma penalty_nonfinite:
  "vhitzee tr = PInf \<or> vhitzee tr = NInf \<Longrightarrow> opposition_penalty tr = Fin (3 / 10)"
  by (auto simp: opposition_penalty_def)

lemma srv_penalty_nonfinite:
  "\<not> isFinite (vhitzee tr) \<Longrightarrow> srv_opposition_penalty tr = Fin (3 / 10)"
  by (simp add: srv_opposition_penalty_def)

text \<open>The weighted sum of bounded terms stays far below the overflow bound.\<close>

lemma vitality_raw_Fin:
  assumes "0 \<le> ob" "ob \<le> 1" "0 \<le> j" "j \<le> 1" "0 \<le> p" "p \<le> 3 / 10"
  shows "js_add (js_sub (js_add (js_mul (Fin (6 / 10)) (Fin ob)) (js_mul (Fin (4 / 10)) (Fin j))) (Fin p))
                (Fin (1 / 2))
         = Fin (6 / 10 * ob + 4 / 10 * j - p + 1 / 2)"
proof -
  have a: "js_mul (Fin (6 / 10)) (Fin ob) = Fin (6 / 10 * ob)"
    using assms by (simp add: overflow_small)
  have b: "js_mul (Fin (4 / 10)) (Fin j) = Fin (4 / 10 * j)"
    using assms by (simp add: overflow_small)
  have c: "js_add (Fin (6 / 10 * ob)) (Fin (4 / 10 * j)) = Fin (6 / 10 * ob + 4 / 10 * j)"
    using assms by (simp add: overflow_small)
  have d: "js_sub (Fin (6 / 10 * ob + 4 / 10 * j)) (Fin p) = Fin (6 / 10 * ob + 4 / 10 * j - p)"
    using assms by (simp add: js_sub_def overflow_small)
  have e: "js_add (Fin (6 / 10 * ob + 4 / 10 * j - p)) (Fin (1 / 2)) = Fin (6 / 10 * ob + 4 / 10 * j - p + 1 / 2)"
    using assms by (simp add: overflow_small)
  show ?thesis by (simp only: a b c d e)
qed

lemma computeVitality_bounds:
  assumes "jolt tr \<noteq> NaN" "observer tr \<noteq> NaN" "vhitzee tr \<noteq> NaN"
  shows "\<exists>v. computeVitality tr = Fin v \<and> 1 / 2 \<le> v \<and> v \<le> 3 / 2"
proof -
  obtain j where j: "Math_min (Math_abs (jolt tr)) (Fin 1) = Fin j" "0 \<le> j" "j \<le> 1"
    using norm_Fin [OF assms(1)] by blast
  obtain ob where ob: "Math_min (Math_abs (observer tr)) (Fin 1) = Fin ob" "0 \<le> ob" "ob \<le> 1"
    using norm_Fin [OF assms(2)] by blast
  obtain p where p: "opposition_penalty tr = Fin p" "0 \<le> p" "p \<le> 3 / 10"
    using penalty_Fin [OF assms(3)] by blast
  have "computeVitality tr =
          Math_max (Fin (1 / 2)) (Math_min (Fin (15 / 10)) (Fin (6 / 10 * ob + 4 / 10 * j - p + 1 / 2)))"
    unfolding computeVitality_def Let_def j(1) ob(1) p(1)
    by (simp only: vitality_raw_Fin [OF ob(2,3) j(2,3) p(2,3)])
  then show ?thesis
    by (metis clamp_Fin)
qed

lemma srv_computeVitality_bounds:
  assumes "jolt tr \<noteq> NaN" "observer tr \<noteq> NaN"
  shows "\<exists>v. srv_computeVitality tr = Fin v \<and> 1 / 2 \<le> v \<and> v \<le> 3 / 2"
proof -
  obtain j where j: "Math_min (Math_abs (jolt tr)) (Fin 1) = Fin j" "0 \<le> j" "j \<le> 1"
    using norm_Fin [OF assms(1)] by blast
  obtain ob where ob: "Math_min (Math_abs (observer tr)) (Fin 1) = Fin ob" "0 \<le> ob" "ob \<le> 1"
    using norm_Fin [OF assms(2)] by blast
  obtain p where p: "srv_opposition_penalty tr = Fin p" "0 \<le> p" "p \<le> 3 / 10"
    using srv_penalty_Fin by blast
  have "srv_computeVitality tr =
          Math_max (Fin (1 / 2)) (Math_min (Fin (15 / 10)) (Fin (6 / 10 * ob + 4 / 10 * j - p + 1 / 2)))"
    unfolding srv_computeVitality_def Let_def j(1) ob(1) p(1)
    by (simp only: vitality_raw_Fin [OF ob(2,3) j(2,3) p(2,3)])
  then show ?thesis
    by (metis clamp_Fin)
qed

text \<open>
  \<^bold>\<open>C6.\<close> For every triad whose \<open>jolt\<close> and \<open>observer\<close> are numbers and whose
  \<open>vhitzee\<close> is finite or infinite, \<^verbatim>\<open>computeVitality\<close> returns a value in the closed
  interval from 0.5 to 1.5, in the registry's processor and in the server's; and whenever
  \<open>vhitzee\<close> is not finite the opposition penalty is exactly 0.3. The final clamp makes
  the interval independent of how the weighted sum is rounded.
\<close>

theorem computeVitality_in_range:
  assumes "jolt tr \<noteq> NaN" and "observer tr \<noteq> NaN"
    and "isFinite (vhitzee tr) \<or> vhitzee tr = PInf \<or> vhitzee tr = NInf"
  shows "(\<exists>v. computeVitality tr = Fin v \<and> 1 / 2 \<le> v \<and> v \<le> 3 / 2)
       \<and> (\<exists>v. srv_computeVitality tr = Fin v \<and> 1 / 2 \<le> v \<and> v \<le> 3 / 2)
       \<and> (\<not> isFinite (vhitzee tr) \<longrightarrow>
            opposition_penalty tr = Fin (3 / 10) \<and> srv_opposition_penalty tr = Fin (3 / 10))"
proof -
  from assms(3) have nn: "vhitzee tr \<noteq> NaN" by auto
  from assms(3) have inf: "\<not> isFinite (vhitzee tr) \<Longrightarrow> vhitzee tr = PInf \<or> vhitzee tr = NInf"
    by auto
  show ?thesis
    using computeVitality_bounds [OF assms(1,2) nn] srv_computeVitality_bounds [OF assms(1,2)]
      penalty_nonfinite [OF inf] srv_penalty_nonfinite [of tr]
    by blast
qed

theorem computeVitality_in_range_witness:
  "jolt \<lparr> jolt = Fin 1, observer = Fin 0, vhitzee = PInf \<rparr> \<noteq> NaN
   \<and> observer \<lparr> jolt = Fin 1, observer = Fin 0, vhitzee = PInf \<rparr> \<noteq> NaN
   \<and> \<not> isFinite (vhitzee \<lparr> jolt = Fin 1, observer = Fin 0, vhitzee = PInf \<rparr>)
   \<and> computeVitality \<lparr> jolt = Fin 1, observer = Fin 0, vhitzee = PInf \<rparr> = Fin (6 / 10)
   \<and> srv_computeVitality \<lparr> jolt = Fin 1, observer = Fin 0, vhitzee = PInf \<rparr> = Fin (6 / 10)
   \<and> opposition_penalty \<lparr> jolt = Fin 1, observer = Fin 0, vhitzee = PInf \<rparr> = Fin (3 / 10)
   \<and> srv_opposition_penalty \<lparr> jolt = Fin 1, observer = Fin 0, vhitzee = PInf \<rparr> = Fin (3 / 10)"
  using computeVitality_in_range [of "\<lparr> jolt = Fin 1, observer = Fin 0, vhitzee = PInf \<rparr>"]
  by (simp add: computeVitality_def srv_computeVitality_def opposition_penalty_def
      srv_opposition_penalty_def js_sub_def overflow_small)

subsection \<open>The triad\<close>

lemma amplitude_times_bounded:
  assumes "\<bar>a\<bar> < overflow_bound" "\<bar>s\<bar> \<le> 1"
  shows "overflow (a * s) = Fin (a * s)"
proof (rule overflow_in_range)
  have "\<bar>a * s\<bar> = \<bar>a\<bar> * \<bar>s\<bar>" by (rule abs_mult)
  also have "\<dots> \<le> \<bar>a\<bar> * 1" using assms(2) by (intro mult_left_mono) simp_all
  finally show "\<bar>a * s\<bar> < overflow_bound" using assms(1) by simp
qed

lemma computeTriad_Fin:
  assumes "\<bar>t + p\<bar> < overflow_bound" "\<bar>a\<bar> < overflow_bound"
  shows "computeTriad \<lparr> theta = Fin t, amplitude = Fin a, phase = Fin p, timestamp = ts \<rparr> =
     \<lparr> jolt = Fin (a * sin (t + p)),
       observer = Fin (a * cos (t + p)),
       vhitzee = (if \<bar>a * cos (t + p)\<bar> < 1 / 10 ^ 10
                  then (if 0 < a * sin (t + p) then PInf else NInf)
                  else overflow (a * sin (t + p) / (a * cos (t + p)))) \<rparr>"
proof -
  have tot: "js_add (Fin t) (Fin p) = Fin (t + p)"
    using assms(1) by (simp add: overflow_in_range)
  have j: "js_mul (Fin a) (Fin (sin (t + p))) = Fin (a * sin (t + p))"
    using amplitude_times_bounded [OF assms(2), of "sin (t + p)"] by simp
  have ob: "js_mul (Fin a) (Fin (cos (t + p))) = Fin (a * cos (t + p))"
    using amplitude_times_bounded [OF assms(2), of "cos (t + p)"] by simp
  show ?thesis
    by (auto simp: computeTriad_def computeTangent_def js_gt_def Let_def tot j ob
        simp del: js_add.simps js_mul.simps)
qed

lemma computeTriad_overflow:
  assumes "overflow_bound \<le> \<bar>t + p\<bar>"
  shows "computeTriad \<lparr> theta = Fin t, amplitude = Fin a, phase = Fin p, timestamp = ts \<rparr> =
     \<lparr> jolt = NaN, observer = NaN, vhitzee = NaN \<rparr>"
proof -
  from assms have "js_add (Fin t) (Fin p) = PInf \<or> js_add (Fin t) (Fin p) = NInf"
    by (auto simp: overflow_def)
  then show ?thesis
    by (auto simp: computeTriad_def computeTangent_def Let_def)
qed

lemma srv_computeTriad_eq: "srv_computeTriad st = computeTriad st"
  by (simp add: srv_computeTriad_def computeTriad_def computeTangent_def Let_def)


text \<open>
  \<^bold>\<open>C7\<close> (as amended). For every state, \<^verbatim>\<open>computeTriad\<close> sets \<open>vhitzee\<close> to
  \<open>jolt / observer\<close> unless \<open>|observer| < 1e-10\<close>; in that case \<open>vhitzee\<close> is plus
  infinity if \<open>jolt > 0\<close> and minus infinity otherwise, so that \<open>jolt = 0\<close> next to a
  vanishing observer gives minus infinity. The two implementations return the same triad
  on every state. On a state of finite \<open>theta\<close>, \<open>amplitude\<close> and \<open>phase\<close> the components
  are those of \<open>amplitude * sin\<close>, \<open>amplitude * cos\<close> and their quotient when
  \<open>theta + phase\<close> does not overflow, and all three are \<^verbatim>\<open>NaN\<close> when it does.
\<close>

theorem computeTriad_vhitzee:
  "vhitzee (computeTriad st) =
     (if js_lt (Math_abs (observer (computeTriad st))) (Fin (1 / 10 ^ 10))
      then (if js_gt (jolt (computeTriad st)) (Fin 0) then PInf else NInf)
      else js_div (jolt (computeTriad st)) (observer (computeTriad st)))
   \<and> vhitzee (srv_computeTriad st) =
     (if js_lt (Math_abs (observer (srv_computeTriad st))) (Fin (1 / 10 ^ 10))
      then (if js_gt (jolt (srv_computeTriad st)) (Fin 0) then PInf else NInf)
      else js_div (jolt (srv_computeTriad st)) (observer (srv_computeTriad st)))
   \<and> srv_computeTriad st = computeTriad st
   \<and> (\<bar>t + p\<bar> < overflow_bound \<and> \<bar>a\<bar> < overflow_bound \<longrightarrow>
        computeTriad \<lparr> theta = Fin t, amplitude = Fin a, phase = Fin p, timestamp = ts \<rparr> =
          \<lparr> jolt = Fin (a * sin (t + p)),
            observer = Fin (a * cos (t + p)),
            vhitzee = (if \<bar>a * cos (t + p)\<bar> < 1 / 10 ^ 10
                       then (if 0 < a * sin (t + p) then PInf else NInf)
                       else overflow (a * sin (t + p) / (a * cos (t + p)))) \<rparr>)
   \<and> (overflow_bound \<le> \<bar>t + p\<bar> \<longrightarrow>
        computeTriad \<lparr> theta = Fin t, amplitude = Fin a, phase = Fin p, timestamp = ts \<rparr> =
          \<lparr> jolt = NaN, observer = NaN, vhitzee = NaN \<rparr>)"
proof (intro conjI impI)
  show "vhitzee (computeTriad st) =
     (if js_lt (Math_abs (observer (computeTriad st))) (Fin (1 / 10 ^ 10))
      then (if js_gt (jolt (computeTriad st)) (Fin 0) then PInf else NInf)
      else js_div (jolt (computeTriad st)) (observer (computeTriad st)))"
    by (simp add: computeTriad_def computeTangent_def Let_def)
  show "vhitzee (srv_computeTriad st) =
     (if js_lt (Math_abs (observer (srv_computeTriad st))) (Fin (1 / 10 ^ 10))
      then (if js_gt (jolt (srv_computeTriad st)) (Fin 0) then PInf else NInf)
      else js_div (jolt (srv_computeTriad st)) (observer (srv_computeTriad st)))"
    by (simp add: srv_computeTriad_def Let_def)
  show "srv_computeTriad st = computeTriad st"
    by (rule srv_computeTriad_eq)
next
  assume "\<bar>t + p\<bar> < overflow_bound \<and> \<bar>a\<bar> < overflow_bound"
  then show "computeTriad \<lparr> theta = Fin t, amplitude = Fin a, phase = Fin p, timestamp = ts \<rparr> =
          \<lparr> jolt = Fin (a * sin (t + p)),
            observer = Fin (a * cos (t + p)),
            vhitzee = (if \<bar>a * cos (t + p)\<bar> < 1 / 10 ^ 10
                       then (if 0 < a * sin (t + p) then PInf else NInf)
                       else overflow (a * sin (t + p) / (a * cos (t + p)))) \<rparr>"
    using computeTriad_Fin by blast
next
  assume "overflow_bound \<le> \<bar>t + p\<bar>"
  then show "computeTriad \<lparr> theta = Fin t, amplitude = Fin a, phase = Fin p, timestamp = ts \<rparr> =
          \<lparr> jolt = NaN, observer = NaN, vhitzee = NaN \<rparr>"
    by (rule computeTriad_overflow)
qed

lemma zero_in_range: "\<bar>0::real\<bar> < overflow_bound" "\<bar>(0::real) + 0\<bar> < overflow_bound"
  using overflow_bound_large by simp_all


lemma two_1024_overflows: "overflow_bound \<le> \<bar>(2::real) ^ 1023 + 2 ^ 1023\<bar>"
  by (simp add: overflow_bound_def)

theorem computeTriad_vhitzee_witness:
  "\<bar>(0::real) + 0\<bar> < overflow_bound \<and> \<bar>0::real\<bar> < overflow_bound
   \<and> computeTriad zero_state = \<lparr> jolt = Fin 0, observer = Fin 0, vhitzee = NInf \<rparr>
   \<and> srv_computeTriad zero_state = \<lparr> jolt = Fin 0, observer = Fin 0, vhitzee = NInf \<rparr>
   \<and> overflow_bound \<le> \<bar>(2::real) ^ 1023 + 2 ^ 1023\<bar>
   \<and> computeTriad overflow_state = \<lparr> jolt = NaN, observer = NaN, vhitzee = NaN \<rparr>"
  using computeTriad_vhitzee [of zero_state 0 0 0 "Fin 0"]
    computeTriad_vhitzee [of overflow_state "2 ^ 1023" "2 ^ 1023" 1 "Fin 0"]
    zero_in_range two_1024_overflows
  by (simp add: zero_state_def overflow_state_def)

text \<open>
  The claim C7 as it was stated asks for plus infinity when \<open>jolt \<ge> 0\<close>. At amplitude 0
  the observer vanishes and \<open>jolt\<close> is 0, and the code answers minus infinity.
\<close>

theorem computeTriad_zero_jolt_counterexample:
  "js_lt (Math_abs (observer (computeTriad zero_state))) (Fin (1 / 10 ^ 10))
   \<and> jolt (computeTriad zero_state) = Fin 0
   \<and> vhitzee (computeTriad zero_state) \<noteq> PInf
   \<and> vhitzee (computeTriad zero_state) = NInf
   \<and> vhitzee (srv_computeTriad zero_state) = NInf"
  using zero_in_range
  by (simp add: zero_state_def computeTriad_Fin srv_computeTriad_eq)

subsection \<open>The unit circle\<close>




subsection \<open>The packet's \<open>epsilon_d\<close>\<close>







section \<open>Properties of the ledger\<close>

subsection \<open>The chain invariant\<close>

lemma chain_invariant_iff:
  "chain_invariant digest l \<longleftrightarrow>
     (\<forall>i. 0 < i \<and> i < length l \<longrightarrow>
        prev_hash (l ! i) = hash (l ! (i - 1)) \<and> hash (l ! i) = digest (canonical_encoding (l ! i)))"
  unfolding chain_invariant_def list_all_iff by auto

lemma chain_invariant_Nil: "chain_invariant digest []"
  by (simp add: chain_invariant_def)

lemma chain_invariant_single: "chain_invariant digest [e]"
  by (simp add: chain_invariant_def)

lemma chain_invariant_snoc:
  assumes inv: "chain_invariant digest l" and ne: "l \<noteq> []"
    and link: "prev_hash e = hash (last l)" and own: "hash e = digest (canonical_encoding e)"
  shows "chain_invariant digest (l @ [e])"
  unfolding chain_invariant_iff
proof (intro allI impI)
  fix i assume i: "0 < i \<and> i < length (l @ [e])"
  show "prev_hash ((l @ [e]) ! i) = hash ((l @ [e]) ! (i - 1)) \<and>
        hash ((l @ [e]) ! i) = digest (canonical_encoding ((l @ [e]) ! i))"
  proof (cases "i < length l")
    case True
    with i have "i - 1 < length l" by simp
    with True i inv show ?thesis
      by (simp add: chain_invariant_iff nth_append)
  next
    case False
    with i have eq: "i = length l" by simp
    from ne have "(l @ [e]) ! (length l - 1) = last l"
      by (simp add: nth_append last_conv_nth)
    with eq link own show ?thesis by simp
  qed
qed

text \<open>What \<^verbatim>\<open>computeHash\<close> hashes is the canonical encoding of the five fields.\<close>

lemma computeHash_canonical: "computeHash digest e = digest (canonical_encoding e)"
  by (simp add: computeHash_def canonical_encoding_def Let_def)

lemma canonical_encoding_hash_update:
  "canonical_encoding (e\<lparr> hash := h \<rparr>) = canonical_encoding e"
  by (simp add: canonical_encoding_def)

lemma coherence_entry_sealed:
  "prev_hash (coherence_entry digest env gs prev) = prev \<and>
   hash (coherence_entry digest env gs prev) = digest (canonical_encoding (coherence_entry digest env gs prev))"
  by (simp add: coherence_entry_def Let_def computeHash_def canonical_encoding_def)

lemma phase_entry_sealed:
  "prev_hash (phase_entry digest env packet prev) = prev \<and>
   hash (phase_entry digest env packet prev) = digest (canonical_encoding (phase_entry digest env packet prev))"
  by (simp add: phase_entry_def Let_def computeHash_def canonical_encoding_def)

lemma srv_phase_entry_sealed:
  "prev_hash (srv_phase_entry digest env packet prev) = prev \<and>
   hash (srv_phase_entry digest env packet prev) = digest (canonical_encoding (srv_phase_entry digest env packet prev))"
  by (simp add: srv_phase_entry_def Let_def computeHash_def canonical_encoding_def)

lemma logGroupCoherence_nonempty:
  "ledger this \<noteq> [] \<Longrightarrow>
     logGroupCoherence digest env gs this =
       (None, this\<lparr> ledger := ledger this @ [coherence_entry digest env gs (hash (last (ledger this)))],
                    emitted := emitted this @
                      [(''coherence_logged'', coherence_entry digest env gs (hash (last (ledger this))))] \<rparr>)"
  by (simp add: logGroupCoherence_def Let_def)

lemma updateGroupCoherence_empty:
  "nodeStates this = [] \<Longrightarrow> updateGroupCoherence digest env g this = (None, this)"
  by (simp add: updateGroupCoherence_def)

lemma updateGroupCoherence_nonempty:
  assumes "nodeStates this \<noteq> []" "ledger this \<noteq> []"
  shows "updateGroupCoherence digest env g this =
     (None, this\<lparr> groupStates := Map_set g (group_state env g (nodeStates this)) (groupStates this),
                  ledger := ledger this @
                    [coherence_entry digest env (group_state env g (nodeStates this)) (hash (last (ledger this)))],
                  emitted := emitted this @
                    [(''coherence_logged'',
                      coherence_entry digest env (group_state env g (nodeStates this)) (hash (last (ledger this))))] \<rparr>)"
  using assms by (simp add: updateGroupCoherence_def Let_def logGroupCoherence_nonempty)

lemma updateGroupCoherence_no_error:
  "ledger this \<noteq> [] \<Longrightarrow> fst (updateGroupCoherence digest env g this) = None"
  by (cases "nodeStates this = []")
     (simp_all add: updateGroupCoherence_empty updateGroupCoherence_nonempty)

lemma updateGroupCoherence_chain:
  assumes "chain_invariant digest (ledger this)" "ledger this \<noteq> []"
  shows "chain_invariant digest (ledger (snd (updateGroupCoherence digest env g this)))
       \<and> ledger (snd (updateGroupCoherence digest env g this)) \<noteq> []"
proof (cases "nodeStates this = []")
  case True
  with assms show ?thesis by (simp add: updateGroupCoherence_empty)
next
  case False
  from chain_invariant_snoc [OF assms(1,2)] coherence_entry_sealed
  have "chain_invariant digest (ledger this @
          [coherence_entry digest env (group_state env g (nodeStates this)) (hash (last (ledger this)))])"
    by blast
  with False assms(2) show ?thesis
    by (simp add: updateGroupCoherence_nonempty)
qed

lemma Map_set_nonempty: "Map_set k v m \<noteq> []"
  by (cases m) (auto split: if_splits)

text \<open>What a call of \<^verbatim>\<open>logPhasePacket\<close> does, in closed form.\<close>

lemma logPhasePacket_rejected:
  "\<not> accepted snh \<Longrightarrow> \<exists>e. logPhasePacket digest env packet snh this = (Some e, this)"
  by (auto simp: accepted_def logPhasePacket_def)

lemma logPhasePacket_empty_ledger:
  "ledger this = [] \<Longrightarrow> \<exists>e. logPhasePacket digest env packet snh this = (Some e, this)"
  by (auto simp: logPhasePacket_def)

lemma logPhasePacket_no_group:
  assumes "accepted snh" "ledger this \<noteq> []" "\<not> truthy (group_id packet)"
  shows "logPhasePacket digest env packet snh this =
     (None, this\<lparr> ledger := ledger this @ [phase_entry digest env packet (hash (last (ledger this)))],
                  nodeStates := Map_set (node_id packet) (state packet) (nodeStates this),
                  emitted := emitted this @
                    [(''phase_logged'', phase_entry digest env packet (hash (last (ledger this))))] \<rparr>)"
  using assms by (simp add: accepted_def logPhasePacket_def Let_def)

lemma logPhasePacket_group:
  assumes "accepted snh" "ledger this \<noteq> []" "truthy (group_id packet)"
  shows "logPhasePacket digest env packet snh this =
     (let entry = phase_entry digest env packet (hash (last (ledger this)));
          nodes = Map_set (node_id packet) (state packet) (nodeStates this);
          g = the (group_id packet);
          gs = group_state env g nodes;
          centry = coherence_entry digest env gs (hash entry)
      in (None, this\<lparr> ledger := ledger this @ [entry, centry],
                       nodeStates := nodes,
                       groupStates := Map_set g gs (groupStates this),
                       emitted := emitted this @ [(''coherence_logged'', centry), (''phase_logged'', entry)] \<rparr>))"
  using assms
  by (simp add: accepted_def logPhasePacket_def Let_def updateGroupCoherence_nonempty Map_set_nonempty)

lemma logPhasePacket_chain:
  assumes inv: "chain_invariant digest (ledger this)"
  shows "chain_invariant digest (ledger (snd (logPhasePacket digest env packet snh this)))"
proof (cases "accepted snh \<and> ledger this \<noteq> []")
  case False
  then obtain e where "logPhasePacket digest env packet snh this = (Some e, this)"
    using logPhasePacket_rejected logPhasePacket_empty_ledger by blast
  with inv show ?thesis by simp
next
  case True
  let ?entry = "phase_entry digest env packet (hash (last (ledger this)))"
  from True have ne: "ledger this \<noteq> []" by simp
  have one: "chain_invariant digest (ledger this @ [?entry])"
    using chain_invariant_snoc [OF inv ne] phase_entry_sealed by blast
  show ?thesis
  proof (cases "truthy (group_id packet)")
    case False
    with True one show ?thesis by (simp add: logPhasePacket_no_group)
  next
    case g: True
    let ?gs = "group_state env (the (group_id packet))
                 (Map_set (node_id packet) (state packet) (nodeStates this))"
    let ?centry = "coherence_entry digest env ?gs (hash ?entry)"
    have "chain_invariant digest ((ledger this @ [?entry]) @ [?centry])"
      using chain_invariant_snoc [OF one, of ?centry] coherence_entry_sealed by simp
    with True g show ?thesis by (simp add: logPhasePacket_group Let_def)
  qed
qed

lemma logPhasePacket_ledger_nonempty:
  assumes "ledger this \<noteq> []"
  shows "ledger (snd (logPhasePacket digest env packet snh this)) \<noteq> []"
proof (cases "accepted snh")
  case False
  then obtain e where "logPhasePacket digest env packet snh this = (Some e, this)"
    using logPhasePacket_rejected by blast
  with assms show ?thesis by simp
next
  case True
  with assms show ?thesis
    by (cases "truthy (group_id packet)") (simp_all add: logPhasePacket_no_group logPhasePacket_group Let_def)
qed

lemma reachable_nonempty: "reachable digest this \<Longrightarrow> ledger this \<noteq> []"
  by (induction rule: reachable.induct) (simp_all add: new_SolitonRegistry_def logPhasePacket_ledger_nonempty)

lemma reachable_chain: "reachable digest this \<Longrightarrow> chain_invariant digest (ledger this)"
  by (induction rule: reachable.induct)
     (simp_all add: new_SolitonRegistry_def chain_invariant_single logPhasePacket_chain)

lemma srv_updateGroupCoherence_ledger:
  "srv_ledger (srv_updateGroupCoherence env g this) = srv_ledger this"
  by (simp add: srv_updateGroupCoherence_def Let_def)

lemma srv_logPhasePacket_ledger:
  "srv_ledger (srv_logPhasePacket digest env packet this) =
     srv_ledger this @
       [srv_phase_entry digest env packet
          (if 0 < length (srv_ledger this) then hash (last (srv_ledger this))
           else replicate 64 (CHR ''0''))]"
  by (simp add: srv_logPhasePacket_def Let_def srv_updateGroupCoherence_ledger)

lemma srv_logPhasePacket_chain:
  assumes inv: "chain_invariant digest (srv_ledger this)"
  shows "chain_invariant digest (srv_ledger (srv_logPhasePacket digest env packet this))"
proof (cases "srv_ledger this = []")
  case True
  then show ?thesis by (simp add: srv_logPhasePacket_ledger chain_invariant_single)
next
  case False
  let ?entry = "srv_phase_entry digest env packet (hash (last (srv_ledger this)))"
  have "chain_invariant digest (srv_ledger this @ [?entry])"
    using chain_invariant_snoc [OF inv False] srv_phase_entry_sealed by blast
  with False show ?thesis by (simp add: srv_logPhasePacket_ledger)
qed

lemma srv_reachable_chain: "srv_reachable digest this \<Longrightarrow> chain_invariant digest (srv_ledger this)"
  by (induction rule: srv_reachable.induct)
     (simp_all add: new_SrvRegistry_def chain_invariant_Nil srv_logPhasePacket_chain)

subsection \<open>The worked registries\<close>

lemma demo_accepted: "accepted demo_snh"
  by (simp add: accepted_def validateConsent_def allowedScopes_def demo_snh_def)

lemma raw_not_accepted: "\<not> accepted raw_snh"
  by (simp add: accepted_def raw_snh_def)

lemma demo_registry0_reachable: "reachable demo_digest demo_registry0"
  unfolding demo_registry0_def by (rule reachable_new)

lemma demo_registry1_reachable: "reachable demo_digest demo_registry1"
  unfolding demo_registry1_def by (rule reachable_log [OF demo_registry0_reachable])

lemma packet_solo_group: "group_id packet_solo = None"
  by (simp add: packet_solo_def createPhasePacket_def Let_def)

lemma demo_registry1_ledger:
  "ledger demo_registry1 =
     [createGenesisEntry demo_digest 0,
      phase_entry demo_digest demo_env packet_solo (hash (createGenesisEntry demo_digest 0))]"
proof -
  have ne: "ledger demo_registry0 \<noteq> []"
    by (simp add: demo_registry0_def new_SolitonRegistry_def)
  have ng: "\<not> truthy (group_id packet_solo)" by (simp add: packet_solo_group)
  show ?thesis
    unfolding demo_registry1_def logPhasePacket_no_group [OF demo_accepted ne ng]
    by (simp add: demo_registry0_def new_SolitonRegistry_def)
qed

lemma demo_registry1_length: "length (ledger demo_registry1) = 2"
  by (simp add: demo_registry1_ledger)

lemma srv_registry1_reachable: "srv_reachable demo_digest srv_registry1"
  unfolding srv_registry1_def by (rule srv_reachable_log [OF srv_reachable_new])

lemma srv_registry2_reachable: "srv_reachable demo_digest srv_registry2"
  unfolding srv_registry2_def by (rule srv_reachable_log [OF srv_registry1_reachable])

lemma srv_registry2_length: "length (srv_ledger srv_registry2) = 2"
  by (simp add: srv_registry2_def srv_registry1_def srv_logPhasePacket_ledger new_SrvRegistry_def)

text \<open>
  \<^bold>\<open>C2.\<close> Every reachable ledger satisfies the chain invariant: each entry at an index
  \<open>i > 0\<close> has the hash of entry \<open>i - 1\<close> as its \<open>prev_hash\<close>, and its \<open>hash\<close> is the
  digest of the canonical encoding of its fields \<open>entry_id\<close>, \<open>entry_type\<close>,
  \<open>created_at\<close>, \<open>payload\<close> and \<open>prev_hash\<close>. Every call of \<^verbatim>\<open>logPhasePacket\<close>
  preserves the invariant, in the registry and in the server's registry, whether it
  appends one entry, two, or throws.
\<close>

theorem ledger_chain_invariant:
  "(reachable digest this \<longrightarrow> chain_invariant digest (ledger this))
   \<and> (chain_invariant digest (ledger this) \<longrightarrow>
        chain_invariant digest (ledger (snd (logPhasePacket digest env packet snh this))))
   \<and> (srv_reachable digest srv \<longrightarrow> chain_invariant digest (srv_ledger srv))
   \<and> (chain_invariant digest (srv_ledger srv) \<longrightarrow>
        chain_invariant digest (srv_ledger (srv_logPhasePacket digest senv spacket srv)))"
  using reachable_chain logPhasePacket_chain srv_reachable_chain srv_logPhasePacket_chain
  by blast

theorem ledger_chain_invariant_witness:
  "reachable demo_digest demo_registry1
   \<and> length (ledger demo_registry1) = 2
   \<and> chain_invariant demo_digest (ledger demo_registry1)
   \<and> prev_hash (ledger demo_registry1 ! 1) = hash (ledger demo_registry1 ! 0)
   \<and> hash (ledger demo_registry1 ! 1) = demo_digest (canonical_encoding (ledger demo_registry1 ! 1))
   \<and> chain_invariant demo_digest
        (ledger (snd (logPhasePacket demo_digest demo_env packet_alpha demo_snh demo_registry1)))
   \<and> srv_reachable demo_digest srv_registry1
   \<and> chain_invariant demo_digest (srv_ledger srv_registry1)
   \<and> length (srv_ledger srv_registry2) = 2
   \<and> chain_invariant demo_digest (srv_ledger srv_registry2)
   \<and> prev_hash (srv_ledger srv_registry2 ! 1) = hash (srv_ledger srv_registry2 ! 0)
   \<and> hash (srv_ledger srv_registry2 ! 1) = demo_digest (canonical_encoding (srv_ledger srv_registry2 ! 1))"
proof -
  note w = ledger_chain_invariant [of demo_digest demo_registry1 demo_env packet_alpha demo_snh
      srv_registry1 demo_srv_env srv_packet]
  from w demo_registry1_reachable
  have a: "chain_invariant demo_digest (ledger demo_registry1)"
    "chain_invariant demo_digest
        (ledger (snd (logPhasePacket demo_digest demo_env packet_alpha demo_snh demo_registry1)))"
    by blast+
  from w srv_registry1_reachable
  have b: "chain_invariant demo_digest (srv_ledger srv_registry1)"
    "chain_invariant demo_digest (srv_ledger srv_registry2)"
    unfolding srv_registry2_def by blast+
  from a(1) demo_registry1_length
  have a1: "prev_hash (ledger demo_registry1 ! 1) = hash (ledger demo_registry1 ! 0)
      \<and> hash (ledger demo_registry1 ! 1) = demo_digest (canonical_encoding (ledger demo_registry1 ! 1))"
    by (simp add: chain_invariant_iff)
  from b(2) srv_registry2_length
  have b1: "prev_hash (srv_ledger srv_registry2 ! 1) = hash (srv_ledger srv_registry2 ! 0)
      \<and> hash (srv_ledger srv_registry2 ! 1) = demo_digest (canonical_encoding (srv_ledger srv_registry2 ! 1))"
    by (simp add: chain_invariant_iff)
  from a b a1 b1 demo_registry1_reachable demo_registry1_length srv_registry1_reachable
    srv_registry2_length
  show ?thesis by blast
qed

subsection \<open>Consent\<close>

lemma validateConsent_iff:
  "validateConsent snh \<longleftrightarrow>
     set (scope (consent snh)) \<inter> {''group_resonance_aggregate'', ''research_aggregate''} \<noteq> {}"
  by (auto simp: validateConsent_def allowedScopes_def list_ex_iff)

lemma logPhasePacket_accepted:
  assumes "accepted snh" "ledger this \<noteq> []"
  shows "fst (logPhasePacket digest env packet snh this) = None"
  using assms
  by (cases "truthy (group_id packet)") (simp_all add: logPhasePacket_no_group logPhasePacket_group Let_def)

text \<open>
  \<^bold>\<open>C5.\<close> On a reachable registry, \<^verbatim>\<open>logPhasePacket\<close> throws if and only if the header
  is classified raw or its consent scope shares no element with the allow-list
  \<open>group_resonance_aggregate\<close>, \<open>research_aggregate\<close>; when it throws, the registry
  (ledger, node states, group states, emitted events) is left as it was; when it returns,
  the ledger has grown.
\<close>

theorem logPhasePacket_consent:
  assumes "reachable digest this"
  shows "(fst (logPhasePacket digest env packet snh this) \<noteq> None \<longleftrightarrow>
            neurodata_class snh = Raw
            \<or> set (scope (consent snh)) \<inter> {''group_resonance_aggregate'', ''research_aggregate''} = {})
       \<and> (fst (logPhasePacket digest env packet snh this) \<noteq> None \<longrightarrow>
            snd (logPhasePacket digest env packet snh this) = this)
       \<and> (fst (logPhasePacket digest env packet snh this) = None \<longrightarrow>
            length (ledger this) < length (ledger (snd (logPhasePacket digest env packet snh this))))"
proof (cases "accepted snh")
  case True
  from assms have ne: "ledger this \<noteq> []" by (rule reachable_nonempty)
  have ok: "fst (logPhasePacket digest env packet snh this) = None"
    using logPhasePacket_accepted [OF True ne] .
  have grow: "length (ledger this) < length (ledger (snd (logPhasePacket digest env packet snh this)))"
    using True ne
    by (cases "truthy (group_id packet)") (simp_all add: logPhasePacket_no_group logPhasePacket_group Let_def)
  from True have "\<not> (neurodata_class snh = Raw
            \<or> set (scope (consent snh)) \<inter> {''group_resonance_aggregate'', ''research_aggregate''} = {})"
    by (simp add: accepted_def validateConsent_iff)
  with ok grow show ?thesis by simp
next
  case False
  then obtain e where r: "logPhasePacket digest env packet snh this = (Some e, this)"
    using logPhasePacket_rejected by blast
  from False have "neurodata_class snh = Raw
            \<or> set (scope (consent snh)) \<inter> {''group_resonance_aggregate'', ''research_aggregate''} = {}"
    by (auto simp: accepted_def validateConsent_iff)
  with r show ?thesis by simp
qed

theorem logPhasePacket_consent_witness:
  "reachable demo_digest demo_registry0
   \<and> neurodata_class raw_snh = Raw
   \<and> fst (logPhasePacket demo_digest demo_env packet_solo raw_snh demo_registry0) \<noteq> None
   \<and> snd (logPhasePacket demo_digest demo_env packet_solo raw_snh demo_registry0) = demo_registry0
   \<and> fst (logPhasePacket demo_digest demo_env packet_solo demo_snh demo_registry0) = None
   \<and> length (ledger demo_registry0)
       < length (ledger (snd (logPhasePacket demo_digest demo_env packet_solo demo_snh demo_registry0)))"
proof -
  have raw: "neurodata_class raw_snh = Raw" by (simp add: raw_snh_def)
  have ok: "\<not> (neurodata_class demo_snh = Raw
            \<or> set (scope (consent demo_snh)) \<inter> {''group_resonance_aggregate'', ''research_aggregate''} = {})"
    by (simp add: demo_snh_def)
  from raw ok demo_registry0_reachable
    logPhasePacket_consent [OF demo_registry0_reachable, of demo_env packet_solo raw_snh]
    logPhasePacket_consent [OF demo_registry0_reachable, of demo_env packet_solo demo_snh]
  show ?thesis by blast
qed

section \<open>Properties of the group coherence\<close>

lemma packet_alpha_fields:
  "node_id packet_alpha = ''Node_Alpha'' \<and> state packet_alpha = unit_state 0
   \<and> group_id packet_alpha = Some ''group-a''"
  by (simp add: packet_alpha_def createPhasePacket_def Let_def)

lemma packet_gamma_fields:
  "node_id packet_gamma = ''Node_Gamma'' \<and> state packet_gamma = unit_state (pi / 2)
   \<and> group_id packet_gamma = Some ''group-b''"
  by (simp add: packet_gamma_def createPhasePacket_def Let_def)

lemma logPhasePacket_group_maps:
  assumes "accepted snh" "ledger this \<noteq> []" "truthy (group_id packet)"
  shows "nodeStates (snd (logPhasePacket digest env packet snh this)) =
           Map_set (node_id packet) (state packet) (nodeStates this)
       \<and> groupStates (snd (logPhasePacket digest env packet snh this)) =
           Map_set (the (group_id packet))
             (group_state env (the (group_id packet))
                (Map_set (node_id packet) (state packet) (nodeStates this)))
             (groupStates this)
       \<and> ledger (snd (logPhasePacket digest env packet snh this)) \<noteq> []"
  by (simp add: logPhasePacket_group [OF assms] Let_def)

lemma circular_mean_two:
  "circular_mean [unit_state 0, unit_state (pi / 2)] = Fin (pi / 4)"
  by (simp add: circular_mean_def unit_state_def arctan_one overflow_small)

lemma circular_mean_gamma_alone:
  "circular_mean [unit_state (pi / 2)] = Fin (pi / 2)"
  by (simp add: circular_mean_def unit_state_def overflow_small)

lemma alpha_registry_maps:
  "nodeStates alpha_registry = [(''Node_Alpha'', unit_state 0)]
   \<and> groupStates alpha_registry =
       [(''group-a'', group_state demo_env ''group-a'' [(''Node_Alpha'', unit_state 0)])]
   \<and> ledger alpha_registry \<noteq> []"
proof -
  have ne0: "ledger demo_registry0 \<noteq> []"
    by (simp add: demo_registry0_def new_SolitonRegistry_def)
  have ta: "truthy (group_id packet_alpha)" by (simp add: packet_alpha_fields)
  from logPhasePacket_group_maps [OF demo_accepted ne0 ta, of demo_digest demo_env]
  show ?thesis
    unfolding alpha_registry_def
    by (simp add: packet_alpha_fields demo_registry0_def new_SolitonRegistry_def)
qed

lemma two_groups_maps:
  "nodeStates two_groups_registry = [(''Node_Alpha'', unit_state 0), (''Node_Gamma'', unit_state (pi / 2))]
   \<and> Map_get (groupStates two_groups_registry) ''group-b'' =
       Some (group_state demo_env ''group-b''
               [(''Node_Alpha'', unit_state 0), (''Node_Gamma'', unit_state (pi / 2))])"
proof -
  from alpha_registry_maps have ne1: "ledger alpha_registry \<noteq> []" by simp
  have tg: "truthy (group_id packet_gamma)" by (simp add: packet_gamma_fields)
  from logPhasePacket_group_maps [OF demo_accepted ne1 tg, of demo_digest demo_env]
  show ?thesis
    unfolding two_groups_registry_def
    by (simp add: alpha_registry_maps packet_gamma_fields)
qed

text \<open>
  \<^bold>\<open>C1\<close> (the code departs from it). \<open>Node_Alpha\<close> reports \<open>theta = 0\<close> for
  \<open>group-a\<close>, then \<open>Node_Gamma\<close> reports \<open>theta = pi / 2\<close> for \<open>group-b\<close>. The state
  the registry stores for \<open>group-b\<close> holds both nodes and the mean angle \<open>pi / 4\<close>; over
  \<open>group-b\<close>'s only member the mean is \<open>pi / 2\<close>.
\<close>

theorem group_coherence_spans_other_groups:
  "group_id packet_alpha = Some ''group-a'' \<and> group_id packet_gamma = Some ''group-b''
   \<and> map_option node_states (Map_get (groupStates two_groups_registry) ''group-b'') =
       Some [(''Node_Alpha'', unit_state 0), (''Node_Gamma'', unit_state (pi / 2))]
   \<and> map_option mean_theta (Map_get (groupStates two_groups_registry) ''group-b'') = Some (Fin (pi / 4))
   \<and> circular_mean [unit_state (pi / 2)] = Fin (pi / 2)"
  using circular_mean_two circular_mean_gamma_alone
  by (simp add: two_groups_maps group_state_def Let_def packet_alpha_fields packet_gamma_fields)



section \<open>Properties of the integrity check\<close>

lemma verifyLoop_all_ok:
  assumes "\<forall>j. i \<le> j \<and> j < length l \<longrightarrow>
             prev_hash (l ! j) = hash (l ! (j - 1)) \<and> hash (l ! j) = computeHash digest (l ! j)"
  shows "verifyLoop digest l i = (True, [])"
  using assms
proof (induction digest l i rule: verifyLoop.induct)
  case (1 digest l i)
  show ?case
  proof (cases "i < length l")
    case False
    then show ?thesis by (simp add: verifyLoop.simps [of digest l i])
  next
    case True
    with "1.prems" have here: "prev_hash (l ! i) = hash (l ! (i - 1))" "hash (l ! i) = computeHash digest (l ! i)"
      by auto
    from "1.prems" have rest: "\<forall>j. i + 1 \<le> j \<and> j < length l \<longrightarrow>
             prev_hash (l ! j) = hash (l ! (j - 1)) \<and> hash (l ! j) = computeHash digest (l ! j)"
      by auto
    have "verifyLoop digest l (i + 1) = (True, [])"
      using "1.IH" [OF True refl refl _ _ rest] here by simp
    with True here show ?thesis
      by (simp add: verifyLoop.simps [of digest l i])
  qed
qed

lemma verifyLoop_mismatch:
  assumes "i \<le> k" "k < length l"
    and "\<forall>j. i \<le> j \<and> j < k \<longrightarrow>
             prev_hash (l ! j) = hash (l ! (j - 1)) \<and> hash (l ! j) = computeHash digest (l ! j)"
    and "prev_hash (l ! k) = hash (l ! (k - 1))" "hash (l ! k) \<noteq> computeHash digest (l ! k)"
  shows "verifyLoop digest l i = (False, [''Hash mismatch at entry '' @ show_nat k])"
  using assms
proof (induction digest l i rule: verifyLoop.induct)
  case (1 digest l i)
  from "1.prems"(1,2) have inb: "i < length l" by simp
  show ?case
  proof (cases "i = k")
    case True
    with "1.prems" inb show ?thesis
      by (simp add: verifyLoop.simps [of digest l k])
  next
    case False
    with "1.prems"(1) have lt: "i < k" "i + 1 \<le> k" by simp_all
    with "1.prems"(3) have here: "prev_hash (l ! i) = hash (l ! (i - 1))" "hash (l ! i) = computeHash digest (l ! i)"
      by auto
    from "1.prems"(3) have rest: "\<forall>j. i + 1 \<le> j \<and> j < k \<longrightarrow>
             prev_hash (l ! j) = hash (l ! (j - 1)) \<and> hash (l ! j) = computeHash digest (l ! j)"
      by auto
    have "verifyLoop digest l (i + 1) = (False, [''Hash mismatch at entry '' @ show_nat k])"
      using "1.IH" [OF inb refl refl _ _ lt(2) "1.prems"(2) rest "1.prems"(4,5)] here by simp
    with inb here show ?thesis
      by (simp add: verifyLoop.simps [of digest l i])
  qed
qed

lemma corrupt_payload_length: "length (corrupt_payload k p l) = length l"
  by (simp add: corrupt_payload_def)

lemma corrupt_payload_other: "j \<noteq> k \<Longrightarrow> corrupt_payload k p l ! j = l ! j"
  by (simp add: corrupt_payload_def)

lemma corrupt_payload_at:
  "k < length l \<Longrightarrow> corrupt_payload k p l ! k = (l ! k)\<lparr> payload := p \<rparr>"
  by (simp add: corrupt_payload_def)

lemma corrupt_payload_hashes:
  "j < length l \<Longrightarrow>
     hash (corrupt_payload k p l ! j) = hash (l ! j)
     \<and> prev_hash (corrupt_payload k p l ! j) = prev_hash (l ! j)"
  by (cases "j = k") (simp_all add: corrupt_payload_def)

text \<open>The canonical encoding sees a payload through its JSON text only.\<close>

lemma canonical_encoding_payload:
  "canonical_encoding (e\<lparr> payload := p \<rparr>) = canonical_encoding e
     \<longleftrightarrow> payload_json p = payload_json (payload e)"
  by (simp add: canonical_encoding_def)

lemma verifyLoop_corrupted:
  assumes inv: "chain_invariant digest l" and k: "1 \<le> k" "k < length l"
    and diff: "digest (canonical_encoding ((l ! k)\<lparr> payload := p \<rparr>)) \<noteq> digest (canonical_encoding (l ! k))"
  shows "verifyLoop digest (corrupt_payload k p l) 1 = (False, [''Hash mismatch at entry '' @ show_nat k])"
proof (rule verifyLoop_mismatch [OF k(1)])
  let ?l = "corrupt_payload k p l"
  show "k < length ?l" using k(2) by (simp add: corrupt_payload_length)
  show "\<forall>j. 1 \<le> j \<and> j < k \<longrightarrow>
          prev_hash (?l ! j) = hash (?l ! (j - 1)) \<and> hash (?l ! j) = computeHash digest (?l ! j)"
  proof (intro allI impI)
    fix j assume j: "1 \<le> j \<and> j < k"
    then have "j \<noteq> k" "j - 1 \<noteq> k" by arith+
    then have "?l ! j = l ! j" "?l ! (j - 1) = l ! (j - 1)"
      by (auto intro: corrupt_payload_other)
    moreover from j k(2) inv
    have "prev_hash (l ! j) = hash (l ! (j - 1)) \<and> hash (l ! j) = digest (canonical_encoding (l ! j))"
      by (simp add: chain_invariant_iff)
    ultimately show "prev_hash (?l ! j) = hash (?l ! (j - 1)) \<and> hash (?l ! j) = computeHash digest (?l ! j)"
      by (simp add: computeHash_canonical)
  qed
  from k have "k - 1 \<noteq> k" by simp
  then have prev: "?l ! (k - 1) = l ! (k - 1)" by (rule corrupt_payload_other)
  from k inv have here: "prev_hash (l ! k) = hash (l ! (k - 1))" "hash (l ! k) = digest (canonical_encoding (l ! k))"
    by (simp_all add: chain_invariant_iff)
  from k(2) have at: "?l ! k = (l ! k)\<lparr> payload := p \<rparr>" by (rule corrupt_payload_at)
  show "prev_hash (?l ! k) = hash (?l ! (k - 1))"
    using prev here(1) at by simp
  show "hash (?l ! k) \<noteq> computeHash digest (?l ! k)"
    using at diff here(2) by (simp add: computeHash_canonical)
qed

lemma verifyLoop_same_text:
  assumes inv: "chain_invariant digest l"
    and same: "payload_json p = payload_json (payload (l ! k))"
  shows "verifyLoop digest (corrupt_payload k p l) 1 = (True, [])"
proof (rule verifyLoop_all_ok, intro allI impI)
  let ?l = "corrupt_payload k p l"
  fix j assume j: "1 \<le> j \<and> j < length ?l"
  then have jl: "0 < j" "j < length l" "j - 1 < length l" by (auto simp: corrupt_payload_length)
  have enc: "canonical_encoding (?l ! j) = canonical_encoding (l ! j)"
  proof (cases "j = k")
    case True
    with jl same show ?thesis by (simp add: corrupt_payload_at canonical_encoding_payload)
  next
    case False
    then show ?thesis by (simp add: corrupt_payload_other)
  qed
  from jl inv have "prev_hash (l ! j) = hash (l ! (j - 1)) \<and> hash (l ! j) = digest (canonical_encoding (l ! j))"
    by (simp add: chain_invariant_iff)
  with enc corrupt_payload_hashes [OF jl(2), of k p] corrupt_payload_hashes [OF jl(3), of k p]
  show "prev_hash (?l ! j) = hash (?l ! (j - 1)) \<and> hash (?l ! j) = computeHash digest (?l ! j)"
    by (simp add: computeHash_canonical)
qed

lemma verifyLoop_blind_to_genesis:
  assumes inv: "chain_invariant digest l"
  shows "verifyLoop digest (corrupt_payload 0 p l) 1 = (True, [])"
proof (rule verifyLoop_all_ok, intro allI impI)
  let ?l = "corrupt_payload 0 p l"
  fix j assume j: "1 \<le> j \<and> j < length ?l"
  then have jl: "0 < j" "j < length l" "j - 1 < length l" by (auto simp: corrupt_payload_length)
  then have same: "?l ! j = l ! j" by (simp add: corrupt_payload_other)
  from jl inv have "prev_hash (l ! j) = hash (l ! (j - 1)) \<and> hash (l ! j) = digest (canonical_encoding (l ! j))"
    by (simp add: chain_invariant_iff)
  with same corrupt_payload_hashes [OF jl(3), of 0 p]
  show "prev_hash (?l ! j) = hash (?l ! (j - 1)) \<and> hash (?l ! j) = computeHash digest (?l ! j)"
    by (simp add: computeHash_canonical)
qed

lemma verifyLoop_untouched:
  assumes "chain_invariant digest l"
  shows "verifyLoop digest l 1 = (True, [])"
  using assms by (intro verifyLoop_all_ok) (simp add: chain_invariant_iff computeHash_canonical)

text \<open>
  \<^bold>\<open>C3\<close> (as amended). On a reachable registry, whatever the number of appends,
  \<^verbatim>\<open>verifyIntegrity\<close> returns true and logs nothing. Let the payload of one entry be
  overwritten, no hash being recomputed. If the entry is at an index \<open>k \<ge> 1\<close>, the JSON
  text of the payload has changed and the digest does not collide on the old and the new
  canonical text, \<^verbatim>\<open>verifyIntegrity\<close> returns false and its one message to
  \<^verbatim>\<open>console.error\<close> names the index \<open>k\<close>. If the JSON text of the payload is the same,
  or if the entry is the genesis entry at index 0, \<^verbatim>\<open>verifyIntegrity\<close> returns true.
\<close>

theorem verifyIntegrity_detects:
  assumes "reachable digest this"
  shows "verifyIntegrity digest this = (True, [])
       \<and> (1 \<le> k \<and> k < length (ledger this)
            \<and> payload_json p \<noteq> payload_json (payload (ledger this ! k))
            \<and> inj_on digest {canonical_encoding ((ledger this ! k)\<lparr> payload := p \<rparr>),
                              canonical_encoding (ledger this ! k)}
          \<longrightarrow> verifyIntegrity digest (this\<lparr> ledger := corrupt_payload k p (ledger this) \<rparr>)
                = (False, [''Hash mismatch at entry '' @ show_nat k]))
       \<and> (payload_json p = payload_json (payload (ledger this ! k))
          \<longrightarrow> verifyIntegrity digest (this\<lparr> ledger := corrupt_payload k p (ledger this) \<rparr>)
                = (True, []))
       \<and> verifyIntegrity digest (this\<lparr> ledger := corrupt_payload 0 p (ledger this) \<rparr>) = (True, [])"
proof (intro conjI impI)
  from assms have inv: "chain_invariant digest (ledger this)" by (rule reachable_chain)
  show "verifyIntegrity digest this = (True, [])"
    using verifyLoop_untouched [OF inv] by (simp add: verifyIntegrity_def)
  show "verifyIntegrity digest (this\<lparr> ledger := corrupt_payload 0 p (ledger this) \<rparr>) = (True, [])"
    using verifyLoop_blind_to_genesis [OF inv] by (simp add: verifyIntegrity_def)
  {
    assume "payload_json p = payload_json (payload (ledger this ! k))"
    from verifyLoop_same_text [OF inv this]
    show "verifyIntegrity digest (this\<lparr> ledger := corrupt_payload k p (ledger this) \<rparr>) = (True, [])"
      by (simp add: verifyIntegrity_def)
  }
  {
    assume h: "1 \<le> k \<and> k < length (ledger this)
            \<and> payload_json p \<noteq> payload_json (payload (ledger this ! k))
            \<and> inj_on digest {canonical_encoding ((ledger this ! k)\<lparr> payload := p \<rparr>),
                              canonical_encoding (ledger this ! k)}"
    let ?e = "ledger this ! k"
    from h have ne: "canonical_encoding (?e\<lparr> payload := p \<rparr>) \<noteq> canonical_encoding ?e"
      by (simp add: canonical_encoding_payload)
    from h have "inj_on digest {canonical_encoding (?e\<lparr> payload := p \<rparr>), canonical_encoding ?e}"
      by simp
    with ne have "digest (canonical_encoding (?e\<lparr> payload := p \<rparr>)) \<noteq> digest (canonical_encoding ?e)"
      by (auto simp: inj_on_def)
    from verifyLoop_corrupted [OF inv _ _ this] h
    show "verifyIntegrity digest (this\<lparr> ledger := corrupt_payload k p (ledger this) \<rparr>)
                = (False, [''Hash mismatch at entry '' @ show_nat k])"
      by (simp add: verifyIntegrity_def)
  }
qed

subsection \<open>The worked corruption\<close>

lemma zenith_registry_reachable: "reachable demo_digest zenith_registry"
  unfolding zenith_registry_def by (rule reachable_log [OF demo_registry0_reachable])

lemma unit_state_zenith_triad:
  "computeTriad (unit_state (pi / 2)) = \<lparr> jolt = Fin 1, observer = Fin 0, vhitzee = PInf \<rparr>"
proof -
  have "pi / 2 < 16" using pi_less_4 by simp
  moreover have "0 \<le> pi / 2" by simp
  ultimately have s: "\<bar>pi / 2 + 0\<bar> < overflow_bound" using overflow_bound_large by simp
  have one: "\<bar>1::real\<bar> < overflow_bound" using overflow_bound_large by simp
  show ?thesis
    unfolding unit_state_def computeTriad_Fin [OF s one] by simp
qed

lemma packet_zenith_fields:
  "group_id packet_zenith = None \<and> node_id packet_zenith = ''Node_Gamma''
   \<and> session_id packet_zenith = ''demo-session-geometric-001''
   \<and> snh_digest packet_zenith = ''digest''
   \<and> vhitzee (triad packet_zenith) = PInf"
  by (simp add: packet_zenith_def createPhasePacket_def Let_def unit_state_zenith_triad)

lemma zenith_registry_ledger:
  "ledger zenith_registry =
     [createGenesisEntry demo_digest 0,
      phase_entry demo_digest demo_env packet_zenith (hash (createGenesisEntry demo_digest 0))]"
proof -
  have ne: "ledger demo_registry0 \<noteq> []"
    by (simp add: demo_registry0_def new_SolitonRegistry_def)
  have ng: "\<not> truthy (group_id packet_zenith)" by (simp add: packet_zenith_fields)
  show ?thesis
    unfolding zenith_registry_def logPhasePacket_no_group [OF demo_accepted ne ng]
    by (simp add: demo_registry0_def new_SolitonRegistry_def)
qed

lemma zenith_entry_payload:
  "payload (ledger zenith_registry ! 1) = Phase (phase_payload packet_zenith)"
  "payload (ledger zenith_registry ! 0) = GenesisPayload"
  by (simp_all add: zenith_registry_ledger phase_entry_def createGenesisEntry_def Let_def)

lemma phase_payload_zenith:
  "pl_node_id (phase_payload packet_zenith) = ''Node_Gamma''
   \<and> pl_vhitzee (phase_payload packet_zenith) = PInf"
  by (simp add: phase_payload_def packet_zenith_fields)

lemma renamed_payload_text:
  "payload_json renamed_payload \<noteq> payload_json (Phase (phase_payload packet_zenith))"
  by (simp add: renamed_payload_def phase_payload_zenith)

lemma flipped_payload_text:
  "payload_json flipped_payload = payload_json (Phase (phase_payload packet_zenith))
   \<and> flipped_payload \<noteq> Phase (phase_payload packet_zenith)"
proof
  show "payload_json flipped_payload = payload_json (Phase (phase_payload packet_zenith))"
    by (simp add: flipped_payload_def phase_payload_zenith)
  have "pl_vhitzee ((phase_payload packet_zenith)\<lparr> pl_vhitzee := NInf \<rparr>)
        \<noteq> pl_vhitzee (phase_payload packet_zenith)"
    by (simp add: phase_payload_zenith)
  then have "(phase_payload packet_zenith)\<lparr> pl_vhitzee := NInf \<rparr> \<noteq> phase_payload packet_zenith"
    by (metis (no_types))
  then show "flipped_payload \<noteq> Phase (phase_payload packet_zenith)"
    unfolding flipped_payload_def by (simp only: payload.inject not_False_eq_True)
qed

lemma demo_digest_renamed:
  "demo_digest (canonical_encoding ((ledger zenith_registry ! 1)\<lparr> payload := renamed_payload \<rparr>))
     \<noteq> demo_digest (canonical_encoding (ledger zenith_registry ! 1))"
  by (simp add: zenith_registry_ledger canonical_encoding_def phase_entry_def Let_def
      renamed_payload_def phase_payload_def packet_zenith_fields)

theorem verifyIntegrity_detects_witness:
  "reachable demo_digest zenith_registry
   \<and> (1::nat) \<le> 1 \<and> 1 < length (ledger zenith_registry)
   \<and> payload_json renamed_payload \<noteq> payload_json (payload (ledger zenith_registry ! 1))
   \<and> inj_on demo_digest
        {canonical_encoding ((ledger zenith_registry ! 1)\<lparr> payload := renamed_payload \<rparr>),
         canonical_encoding (ledger zenith_registry ! 1)}
   \<and> verifyIntegrity demo_digest zenith_registry = (True, [])
   \<and> verifyIntegrity demo_digest
        (zenith_registry\<lparr> ledger := corrupt_payload 1 renamed_payload (ledger zenith_registry) \<rparr>)
       = (False, [''Hash mismatch at entry 1''])
   \<and> payload_json flipped_payload = payload_json (payload (ledger zenith_registry ! 1))
   \<and> verifyIntegrity demo_digest
        (zenith_registry\<lparr> ledger := corrupt_payload 1 flipped_payload (ledger zenith_registry) \<rparr>)
       = (True, [])"
proof -
  have len: "1 < length (ledger zenith_registry)"
    by (simp add: zenith_registry_ledger)
  have changed: "payload_json renamed_payload \<noteq> payload_json (payload (ledger zenith_registry ! 1))"
    unfolding zenith_entry_payload by (rule renamed_payload_text)
  have inj: "inj_on demo_digest
        {canonical_encoding ((ledger zenith_registry ! 1)\<lparr> payload := renamed_payload \<rparr>),
         canonical_encoding (ledger zenith_registry ! 1)}"
    using demo_digest_renamed by (auto simp: inj_on_def)
  have same: "payload_json flipped_payload = payload_json (payload (ledger zenith_registry ! 1))"
    unfolding zenith_entry_payload using flipped_payload_text by (rule conjunct1)
  have msg: "''Hash mismatch at entry '' @ show_nat 1 = ''Hash mismatch at entry 1''"
    by (simp add: show_nat.simps)
  from len changed inj same zenith_registry_reachable
    verifyIntegrity_detects [OF zenith_registry_reachable, of 1 renamed_payload]
    verifyIntegrity_detects [OF zenith_registry_reachable, of 1 flipped_payload]
  show ?thesis unfolding msg by simp
qed

text \<open>
  The claim C3 as it was stated lets the corrupted entry be any entry and the corruption
  any change of the payload. After one append, two corruptions pass the check. The genesis
  entry with its payload overwritten: the loop starts at index 1 and never recomputes the
  hash of entry 0, though the digest of the overwritten entry no longer matches it. And
  entry 1 with its \<open>vhitzee\<close> turned from plus to minus infinity: \<^verbatim>\<open>JSON.stringify\<close>
  writes both as \<^verbatim>\<open>null\<close>, so the text that is hashed is the same.
\<close>

theorem verifyIntegrity_undetected_counterexample:
  "payload (ledger zenith_registry ! 0) = GenesisPayload
   \<and> demo_digest (canonical_encoding (corrupt_payload 0 renamed_payload (ledger zenith_registry) ! 0))
       \<noteq> hash (corrupt_payload 0 renamed_payload (ledger zenith_registry) ! 0)
   \<and> verifyIntegrity demo_digest
        (zenith_registry\<lparr> ledger := corrupt_payload 0 renamed_payload (ledger zenith_registry) \<rparr>)
       = (True, [])
   \<and> payload (ledger zenith_registry ! 1) = Phase (phase_payload packet_zenith)
   \<and> pl_vhitzee (phase_payload packet_zenith) = PInf
   \<and> flipped_payload = Phase ((phase_payload packet_zenith)\<lparr> pl_vhitzee := NInf \<rparr>)
   \<and> flipped_payload \<noteq> payload (ledger zenith_registry ! 1)
   \<and> verifyIntegrity demo_digest
        (zenith_registry\<lparr> ledger := corrupt_payload 1 flipped_payload (ledger zenith_registry) \<rparr>)
       = (True, [])"
proof -
  have inv: "chain_invariant demo_digest (ledger zenith_registry)"
    using zenith_registry_reachable by (rule reachable_chain)
  have diff: "demo_digest (canonical_encoding (corrupt_payload 0 renamed_payload (ledger zenith_registry) ! 0))
       \<noteq> hash (corrupt_payload 0 renamed_payload (ledger zenith_registry) ! 0)"
    by (simp add: zenith_registry_ledger corrupt_payload_def createGenesisEntry_def Let_def
        computeHash_def canonical_encoding_def renamed_payload_def phase_payload_def
        packet_zenith_fields)
  have same: "payload_json flipped_payload = payload_json (payload (ledger zenith_registry ! 1))"
    unfolding zenith_entry_payload using flipped_payload_text by (rule conjunct1)
  have differs: "flipped_payload \<noteq> payload (ledger zenith_registry ! 1)"
    unfolding zenith_entry_payload using flipped_payload_text by (rule conjunct2)
  have a: "verifyIntegrity demo_digest
        (zenith_registry\<lparr> ledger := corrupt_payload 0 renamed_payload (ledger zenith_registry) \<rparr>)
       = (True, [])"
    using verifyLoop_blind_to_genesis [OF inv, of renamed_payload] by (simp add: verifyIntegrity_def)
  have b: "verifyIntegrity demo_digest
        (zenith_registry\<lparr> ledger := corrupt_payload 1 flipped_payload (ledger zenith_registry) \<rparr>)
       = (True, [])"
    using verifyLoop_same_text [OF inv same] by (simp add: verifyIntegrity_def)
  from phase_payload_zenith have v: "pl_vhitzee (phase_payload packet_zenith) = PInf" by simp
  from zenith_entry_payload diff a b v differs flipped_payload_def
  show ?thesis by blast
qed

section \<open>Properties of the revocation endpoint\<close>

text \<open>
  \<^bold>\<open>C4\<close> (the code departs from it). \<^verbatim>\<open>POST /revoke\<close> with a token answers
  \<open>revoked\<close> and leaves the server as it was: the geometric ledger keeps its length and
  its entries, and no revocation entry is appended.
\<close>

theorem post_revoke_appends_nothing:
  "post_revoke \<lparr> rb_revocation_token = Some ''token-1'', rb_session_id = Some ''demo-session'' \<rparr> srv
     = (Response 200 [(''status'', Some ''revoked''),
                      (''message'', Some ''Revocation honored''),
                      (''session_id'', Some ''demo-session'')], srv)
   \<and> srv_ledger (geometricFPT (snd (post_revoke body srv))) = srv_ledger (geometricFPT srv)
   \<and> ledger_json (snd (post_revoke body srv)) = ledger_json srv"
  by (simp add: post_revoke_def)

section \<open>The server's entry point\<close>

text \<open>
  \<^verbatim>\<open>processAndLog\<close> throws on every input and leaves the registry as it was, so the
  server's own requests never append to the geometric ledger.
\<close>

lemma processAndLog_throws:
  "\<exists>err. processAndLog digest env bands nodeId sessionId snhDigest groupId this = (Inl err, this)"
  by (simp add: processAndLog_def srv_createPhasePacket_def)

end
